theory Spec2Isabelle
  imports Complex_Main
begin

section \<open>Board engine (game/board.go, the check-aware revision)\<close>

text \<open>
  Go's \<open>int\<close> is modelled by \<open>int\<close>: every value the engine computes on rows and
  columns stays within a few units of the interval 0..7, far from the 64-bit bounds.
  The array \<open>Cells [8][8]Piece\<close> is a function of row and column; the engine reads and
  writes it at indices 0..7 only, and an access outside that range (a Go panic) is an
  explicit \<open>None\<close> result of the operation that performs it.
\<close>

datatype Color = White | Black

datatype PieceType = Empty | Pawn | Knight | Bishop | Rook | Queen | King

record Position =
  Row :: int
  Col :: int

record Piece =
  Type :: PieceType
  Color :: Color

record Move =
  From :: Position
  To :: Position

record Board =
  Cells :: "int \<Rightarrow> int \<Rightarrow> Piece"
  CurrentTurn :: Color
  GameOver :: bool
  Winner :: Color
  IsCheck :: bool
  EnPassantTarget :: "Position option"
  WhiteKingMoved :: bool
  BlackKingMoved :: bool
  WhiteRookAMoved :: bool
  WhiteRookHMoved :: bool
  BlackRookAMoved :: bool
  BlackRookHMoved :: bool
  MovesCount :: int

definition mkPos :: "int \<Rightarrow> int \<Rightarrow> Position" where
  "mkPos r c = \<lparr>Row = r, Col = c\<rparr>"

definition mkPiece :: "PieceType \<Rightarrow> Color \<Rightarrow> Piece" where
  "mkPiece t c = \<lparr>Type = t, Color = c\<rparr>"

definition mkMove :: "Position \<Rightarrow> Position \<Rightarrow> Move" where
  "mkMove f t = \<lparr>From = f, To = t\<rparr>"

text \<open>\<open>Piece{Empty, White}\<close>, the value the engine stores in a vacated square.\<close>

definition emptyCell :: Piece where
  "emptyCell = mkPiece Empty White"

definition opponent :: "Color \<Rightarrow> Color" where
  "opponent c = (if c = Black then White else Black)"

text \<open>The scan order of every double loop of the engine: rows 0..7, then columns 0..7.\<close>

definition idx8 :: "int list" where
  "idx8 = [0, 1, 2, 3, 4, 5, 6, 7]"

definition squares :: "(int \<times> int) list" where
  "squares = concat (map (\<lambda>r. map (\<lambda>c. (r, c)) idx8) idx8)"

definition getCell :: "Board \<Rightarrow> Position \<Rightarrow> Piece" where
  "getCell b p = Cells b (Row p) (Col p)"

definition setCell :: "Board \<Rightarrow> int \<Rightarrow> int \<Rightarrow> Piece \<Rightarrow> Board" where
  "setCell b r c p = b\<lparr>Cells := (Cells b)(r := (Cells b r)(c := p))\<rparr>"

text \<open>
  \<open>NewBoard\<close> and \<open>setupInitialPosition\<close>: the back ranks on rows 0 (Black) and 7
  (White), the pawns on rows 1 and 6, \<open>Piece{Empty, White}\<close> elsewhere; White to move
  and every other field at its zero value.
\<close>

definition backRank :: "Color \<Rightarrow> int \<Rightarrow> Piece" where
  "backRank color col =
    mkPiece ([Rook, Knight, Bishop, Queen, King, Bishop, Knight, Rook] ! nat col) color"

definition setupInitialPosition :: "Board \<Rightarrow> Board" where
  "setupInitialPosition b =
    b\<lparr>Cells := (\<lambda>row col.
          if row = 0 then backRank Black col
          else if row = 1 then mkPiece Pawn Black
          else if row = 6 then mkPiece Pawn White
          else if row = 7 then backRank White col
          else mkPiece Empty White)\<rparr>"

definition NewBoard :: Board where
  "NewBoard = setupInitialPosition
    \<lparr>Cells = (\<lambda>row col. mkPiece Empty White), CurrentTurn = White, GameOver = False,
     Winner = White, IsCheck = False, EnPassantTarget = None, WhiteKingMoved = False,
     BlackKingMoved = False, WhiteRookAMoved = False, WhiteRookHMoved = False,
     BlackRookAMoved = False, BlackRookHMoved = False, MovesCount = 0\<rparr>"

subsection \<open>Piece movement rules\<close>

definition isValidPawnMove :: "Board \<Rightarrow> Move \<Rightarrow> Piece \<Rightarrow> bool" where
  "isValidPawnMove b move piece =
    (let direction = (if Color piece = Black then 1 else - 1);
         startRow = (if Color piece = Black then 1 else 6);
         rowDiff = Row (To move) - Row (From move);
         colDiff = Col (To move) - Col (From move)
     in if colDiff = 0 \<and> rowDiff = direction
        then Type (getCell b (To move)) = Empty
        else if colDiff = 0 \<and> rowDiff = 2 * direction \<and> Row (From move) = startRow
        then Type (Cells b (Row (From move) + direction) (Col (From move))) = Empty
             \<and> Type (getCell b (To move)) = Empty
        else if \<bar>colDiff\<bar> = 1 \<and> rowDiff = direction
        then (if Type (getCell b (To move)) \<noteq> Empty
                 \<and> Color (getCell b (To move)) \<noteq> Color piece
              then True
              else (case EnPassantTarget b of
                      None \<Rightarrow> False
                    | Some ep \<Rightarrow> Row (To move) = Row ep \<and> Col (To move) = Col ep))
        else False)"

definition isValidKnightMove :: "Move \<Rightarrow> bool" where
  "isValidKnightMove move =
    (let rowDiff = \<bar>Row (To move) - Row (From move)\<bar>;
         colDiff = \<bar>Col (To move) - Col (From move)\<bar>
     in (rowDiff = 2 \<and> colDiff = 1) \<or> (rowDiff = 1 \<and> colDiff = 2))"

text \<open>
  The loop of \<open>isPathClear\<close>: it walks from the square after \<open>From\<close> in steps of
  \<open>(rowStep, colStep)\<close> until it stands on \<open>To\<close>. Reading a cell outside the array
  panics (\<open>None\<close>). A zero step occurs in the source only when \<open>From = To\<close>, where the
  loop is not entered; the test on the step makes the recursion well-founded for every
  argument.
\<close>

function pathLoop :: "Board \<Rightarrow> int \<Rightarrow> int \<Rightarrow> int \<Rightarrow> int \<Rightarrow> int \<Rightarrow> int \<Rightarrow> bool option" where
  "pathLoop b rowStep colStep toRow toCol row col =
    (if row = toRow \<and> col = toCol then Some True
     else if rowStep = 0 \<and> colStep = 0 then None
     else if row < 0 \<or> 7 < row \<or> col < 0 \<or> 7 < col then None
     else if Type (Cells b row col) \<noteq> Empty then Some False
     else pathLoop b rowStep colStep toRow toCol (row + rowStep) (col + colStep))"
  by pat_completeness auto
termination
  by (relation "measure (\<lambda>(b, rs, cs, tr, tc, row, col).
        nat (if 0 < rs then 8 - row else if rs < 0 then row + 1
             else if 0 < cs then 8 - col else col + 1))") auto

declare pathLoop.simps [simp del]

definition isPathClear :: "Board \<Rightarrow> Move \<Rightarrow> bool option" where
  "isPathClear b move =
    (let rowStep = (if Row (To move) > Row (From move) then 1
                    else if Row (To move) < Row (From move) then - 1 else 0);
         colStep = (if Col (To move) > Col (From move) then 1
                    else if Col (To move) < Col (From move) then - 1 else 0)
     in pathLoop b rowStep colStep (Row (To move)) (Col (To move))
          (Row (From move) + rowStep) (Col (From move) + colStep))"

text \<open>
  The bishop and rook rules call \<open>isPathClear\<close> only after their alignment test.
  Their callers pass squares of the board, where \<open>isPathClear\<close> returns a value
  (lemma \<open>isPathClear_returns\<close>), so the two rules are plain booleans.
\<close>

definition isValidBishopMove :: "Board \<Rightarrow> Move \<Rightarrow> bool" where
  "isValidBishopMove b move =
    (let rowDiff = \<bar>Row (To move) - Row (From move)\<bar>;
         colDiff = \<bar>Col (To move) - Col (From move)\<bar>
     in if rowDiff \<noteq> colDiff then False else isPathClear b move = Some True)"

definition isValidRookMove :: "Board \<Rightarrow> Move \<Rightarrow> bool" where
  "isValidRookMove b move =
    (if Row (From move) \<noteq> Row (To move) \<and> Col (From move) \<noteq> Col (To move) then False
     else isPathClear b move = Some True)"

definition isValidQueenMove :: "Board \<Rightarrow> Move \<Rightarrow> bool" where
  "isValidQueenMove b move = (isValidBishopMove b move \<or> isValidRookMove b move)"

subsection \<open>Attacks and check\<close>

definition findKing :: "Board \<Rightarrow> Color \<Rightarrow> Position" where
  "findKing b color =
    (case filter (\<lambda>(row, col). Type (Cells b row col) = King
                                \<and> Color (Cells b row col) = color) squares of
       [] \<Rightarrow> mkPos (- 1) (- 1)
     | (row, col) # _ \<Rightarrow> mkPos row col)"

text \<open>The body of the double loop of \<open>isSquareUnderAttack\<close> for one scanned square.\<close>

definition attacksFrom :: "Board \<Rightarrow> Position \<Rightarrow> Color \<Rightarrow> int \<Rightarrow> int \<Rightarrow> bool" where
  "attacksFrom b pos byColor row col =
    (let piece = Cells b row col;
         move = mkMove (mkPos row col) pos
     in if Type piece = Empty \<or> Color piece \<noteq> byColor then False
        else (case Type piece of
                Pawn \<Rightarrow> Row pos - row = (if Color piece = Black then 1 else - 1)
                          \<and> \<bar>Col pos - col\<bar> = 1
              | Knight \<Rightarrow> isValidKnightMove move
              | Bishop \<Rightarrow> isValidBishopMove b move
              | Rook \<Rightarrow> isValidRookMove b move
              | Queen \<Rightarrow> isValidQueenMove b move
              | King \<Rightarrow> \<bar>Row pos - row\<bar> \<le> 1 \<and> \<bar>Col pos - col\<bar> \<le> 1
              | Empty \<Rightarrow> False))"

definition isSquareUnderAttack :: "Board \<Rightarrow> Position \<Rightarrow> Color \<Rightarrow> bool" where
  "isSquareUnderAttack b pos byColor =
    list_ex (\<lambda>(row, col). attacksFrom b pos byColor row col) squares"

definition isInCheck :: "Board \<Rightarrow> Color \<Rightarrow> bool" where
  "isInCheck b color =
    (let kingPos = findKing b color
     in if Row kingPos = - 1 then False
        else isSquareUnderAttack b kingPos (opponent color))"

text \<open>
  \<open>wouldBeInCheck\<close> works on a copy of the board: it moves the piece from \<open>From\<close> to
  \<open>To\<close>, empties \<open>From\<close>, and asks whether the king of \<open>color\<close> is in check there.
\<close>

definition wouldBeInCheck :: "Board \<Rightarrow> Move \<Rightarrow> Color \<Rightarrow> bool" where
  "wouldBeInCheck b move color =
    (let piece = getCell b (From move);
         t1 = setCell b (Row (To move)) (Col (To move)) piece;
         t2 = setCell t1 (Row (From move)) (Col (From move)) emptyCell
     in isInCheck t2 color)"

subsection \<open>Castling\<close>

definition canCastle :: "Board \<Rightarrow> Move \<Rightarrow> Piece \<Rightarrow> bool" where
  "canCastle b move piece =
    (if Color piece = White \<and> WhiteKingMoved b then False
     else if Color piece = Black \<and> BlackKingMoved b then False
     else
       let isKingSide = Col (To move) > Col (From move);
           rookCol = (if isKingSide then 7 else 0);
           rookMoved = (if Color piece = White
                        then (if isKingSide then WhiteRookHMoved b else WhiteRookAMoved b)
                        else (if isKingSide then BlackRookHMoved b else BlackRookAMoved b));
           rook = Cells b (Row (From move)) rookCol;
           minCol = min (Col (From move)) rookCol;
           maxCol = max (Col (From move)) rookCol;
           opponentColor = (if Color piece = Black then White else Black);
           transit = (if Col (To move) < Col (From move)
                      then rev [Col (To move) .. Col (From move) - 1]
                      else [Col (From move) + 1 .. Col (To move)])
       in if rookMoved then False
          else if Type rook \<noteq> Rook \<or> Color rook \<noteq> Color piece then False
          else if list_ex (\<lambda>col. Type (Cells b (Row (From move)) col) \<noteq> Empty)
                    [minCol + 1 .. maxCol - 1] then False
          else if isSquareUnderAttack b (From move) opponentColor then False
          else if list_ex (\<lambda>col. isSquareUnderAttack b (mkPos (Row (From move)) col)
                                    opponentColor) transit then False
          else True)"

definition isValidKingMove :: "Board \<Rightarrow> Move \<Rightarrow> Piece \<Rightarrow> bool" where
  "isValidKingMove b move piece =
    (let rowDiff = \<bar>Row (To move) - Row (From move)\<bar>;
         colDiff = \<bar>Col (To move) - Col (From move)\<bar>
     in if rowDiff \<le> 1 \<and> colDiff \<le> 1 then True
        else if rowDiff = 0 \<and> colDiff = 2 then canCastle b move piece
        else False)"

subsection \<open>Legality\<close>

text \<open>
  The \<open>switch piece.Type\<close> of \<open>IsValidMove\<close>; its \<open>default\<close> branch is the empty
  square.
\<close>

definition pieceRule :: "Board \<Rightarrow> Move \<Rightarrow> Piece \<Rightarrow> bool" where
  "pieceRule b move piece =
    (case Type piece of
       Pawn \<Rightarrow> isValidPawnMove b move piece
     | Knight \<Rightarrow> isValidKnightMove move
     | Bishop \<Rightarrow> isValidBishopMove b move
     | Rook \<Rightarrow> isValidRookMove b move
     | Queen \<Rightarrow> isValidQueenMove b move
     | King \<Rightarrow> isValidKingMove b move piece
     | Empty \<Rightarrow> False)"

definition IsValidMove :: "Board \<Rightarrow> Move \<Rightarrow> bool" where
  "IsValidMove b move =
    (if Row (From move) < 0 \<or> Row (From move) > 7
        \<or> Col (From move) < 0 \<or> Col (From move) > 7 then False
     else if Row (To move) < 0 \<or> Row (To move) > 7
        \<or> Col (To move) < 0 \<or> Col (To move) > 7 then False
     else
       let piece = getCell b (From move); target = getCell b (To move)
       in if Type piece = Empty then False
          else if Color piece \<noteq> CurrentTurn b then False
          else if Type target \<noteq> Empty \<and> Color target = Color piece then False
          else if \<not> pieceRule b move piece then False
          else \<not> wouldBeInCheck b move (Color piece))"

definition GetLegalMoves :: "Board \<Rightarrow> Move list" where
  "GetLegalMoves b =
    concat (map (\<lambda>(row, col).
        if Type (Cells b row col) = Empty \<or> Color (Cells b row col) \<noteq> CurrentTurn b
        then []
        else filter (IsValidMove b)
               (map (\<lambda>(toRow, toCol). mkMove (mkPos row col) (mkPos toRow toCol)) squares))
      squares)"

subsection \<open>Applying a move\<close>

definition checkGameOver :: "Board \<Rightarrow> Board" where
  "checkGameOver b =
    (let moves = GetLegalMoves b;
         b1 = (if length moves = 0
               then b\<lparr>GameOver := True,
                      Winner := (if isInCheck b (CurrentTurn b)
                                 then (if CurrentTurn b = White then Black else White)
                                 else White)\<rparr>
               else b)
     in if MovesCount b1 > 200 then b1\<lparr>GameOver := True, Winner := White\<rparr> else b1)"

text \<open>Go's implicit bounds check on an index pair of \<open>Cells\<close>.\<close>

definition onBoard :: "int \<Rightarrow> int \<Rightarrow> bool" where
  "onBoard r c = (0 \<le> r \<and> r \<le> 7 \<and> 0 \<le> c \<and> c \<le> 7)"

text \<open>
  The condition of the first branch of \<open>MakeMove\<close>: a pawn arrives on the en-passant
  target. The square it then empties is one row behind the destination.
\<close>

definition epCapture :: "Board \<Rightarrow> Move \<Rightarrow> bool" where
  "epCapture b move =
    (Type (getCell b (From move)) = Pawn
     \<and> (case EnPassantTarget b of
          None \<Rightarrow> False
        | Some ep \<Rightarrow> Row (To move) = Row ep \<and> Col (To move) = Col ep))"

definition epCapturedRow :: "Board \<Rightarrow> Move \<Rightarrow> int" where
  "epCapturedRow b move =
    (if Color (getCell b (From move)) = White then Row (To move) + 1 else Row (To move) - 1)"

text \<open>
  The statements of \<open>MakeMove\<close> in source order, on indices already known to be inside
  the array: en-passant removal, castling rook, the move itself, promotion, en-passant
  target, has-moved flags, turn, counter, check flag. \<open>(From.Row + To.Row) / 2\<close> is
  Go's truncating division of a non-negative sum, which is \<open>div\<close>.
\<close>

definition movePieces :: "Board \<Rightarrow> Move \<Rightarrow> Board" where
  "movePieces b move =
    (let piece = getCell b (From move);
         fr = Row (From move); fc = Col (From move);
         tr = Row (To move); tc = Col (To move);
         b1 = (if epCapture b move then setCell b (epCapturedRow b move) tc emptyCell else b);
         b2 = (if Type piece = King \<and> \<bar>tc - fc\<bar> = 2
               then (if tc > fc
                     then setCell (setCell b1 fr 5 (Cells b1 fr 7)) fr 7 emptyCell
                     else setCell (setCell b1 fr 3 (Cells b1 fr 0)) fr 0 emptyCell)
               else b1);
         b3 = setCell (setCell b2 tr tc piece) fr fc emptyCell
     in if Type piece = Pawn
           \<and> ((Color piece = White \<and> tr = 0) \<or> (Color piece = Black \<and> tr = 7))
        then setCell b3 tr tc (mkPiece Queen (Color piece))
        else b3)"

definition updateFlags :: "Board \<Rightarrow> Move \<Rightarrow> Piece \<Rightarrow> Board" where
  "updateFlags b move piece =
    (let b1 = b\<lparr>EnPassantTarget :=
                  (if Type piece = Pawn \<and> \<bar>Row (To move) - Row (From move)\<bar> = 2
                   then Some (mkPos ((Row (From move) + Row (To move)) div 2) (Col (To move)))
                   else None)\<rparr>;
         b2 = (if Type piece = King
               then (if Color piece = White then b1\<lparr>WhiteKingMoved := True\<rparr>
                     else b1\<lparr>BlackKingMoved := True\<rparr>)
               else b1);
         b3 = (if Type piece = Rook
               then (if Color piece = White
                     then (if Col (From move) = 0 then b2\<lparr>WhiteRookAMoved := True\<rparr>
                           else if Col (From move) = 7 then b2\<lparr>WhiteRookHMoved := True\<rparr>
                           else b2)
                     else (if Col (From move) = 0 then b2\<lparr>BlackRookAMoved := True\<rparr>
                           else if Col (From move) = 7 then b2\<lparr>BlackRookHMoved := True\<rparr>
                           else b2))
               else b2);
         b4 = b3\<lparr>CurrentTurn := (if CurrentTurn b3 = White then Black else White)\<rparr>;
         b5 = b4\<lparr>MovesCount := MovesCount b4 + 1\<rparr>
     in b5\<lparr>IsCheck := isInCheck b5 (CurrentTurn b5)\<rparr>)"

definition applyMove :: "Board \<Rightarrow> Move \<Rightarrow> Board" where
  "applyMove b move = updateFlags (movePieces b move) move (getCell b (From move))"

text \<open>
  \<open>MakeMove\<close> itself: \<open>None\<close> when one of its array accesses is out of range (the
  source square, the square emptied by an en-passant capture, the destination), and
  otherwise the board after the move and after game-over detection.
\<close>

definition MakeMove :: "Board \<Rightarrow> Move \<Rightarrow> Board option" where
  "MakeMove b move =
    (if onBoard (Row (From move)) (Col (From move)) then
       (if epCapture b move \<and> \<not> onBoard (epCapturedRow b move) (Col (To move)) then None
        else if onBoard (Row (To move)) (Col (To move))
             then Some (checkGameOver (applyMove b move))
             else None)
     else None)"


section \<open>Network (neural/network.go)\<close>

text \<open>
  \<open>float64\<close> is modelled by \<open>real\<close>: sums, products and comparisons are exact, and
  rounding, infinities and NaN are outside the model. A slice of floats is a function
  of its index; \<open>NewNetwork\<close> allocates the layers with the fixed sizes 768, 256, 128
  and 1, and \<open>Forward\<close> and \<open>Train\<close> touch exactly the indices below those sizes.
\<close>

type_synonym vec = "nat \<Rightarrow> real"

type_synonym mat = "nat \<Rightarrow> nat \<Rightarrow> real"

record Network =
  Weights1 :: mat
  Bias1 :: vec
  Weights2 :: mat
  Bias2 :: vec
  Weights3 :: mat
  Bias3 :: vec
  VWeights1 :: mat
  VBias1 :: vec
  VWeights2 :: mat
  VBias2 :: vec
  VWeights3 :: mat
  VBias3 :: vec
  LearningRate :: real
  Momentum :: real

definition relu :: "real \<Rightarrow> real" where
  "relu x = (if x > 0 then x else 0)"

definition tanhDerivative :: "real \<Rightarrow> real" where
  "tanhDerivative x = (let t = tanh x in 1 - t * t)"

text \<open>The forward pass of \<open>Train\<close> (the same three loops as \<open>Forward\<close>).\<close>

definition hidden1 :: "Network \<Rightarrow> vec \<Rightarrow> vec" where
  "hidden1 n input = (\<lambda>i. relu (Bias1 n i + (\<Sum>j = 0..<768. input j * Weights1 n j i)))"

definition hidden2 :: "Network \<Rightarrow> vec \<Rightarrow> vec" where
  "hidden2 n input =
    (\<lambda>i. relu (Bias2 n i + (\<Sum>j = 0..<256. hidden1 n input j * Weights2 n j i)))"

definition outputSum :: "Network \<Rightarrow> vec \<Rightarrow> real" where
  "outputSum n input = Bias3 n 0 + (\<Sum>j = 0..<128. hidden2 n input j * Weights3 n j 0)"

definition Forward :: "Network \<Rightarrow> vec \<Rightarrow> real" where
  "Forward n input = tanh (outputSum n input)"

definition outputDelta :: "Network \<Rightarrow> vec \<Rightarrow> real \<Rightarrow> real" where
  "outputDelta n input target =
    (target - tanh (outputSum n input)) * tanhDerivative (outputSum n input)"

text \<open>
  One momentum update of a weight matrix over the index ranges \<open>i < rows\<close>, \<open>j < cols\<close>
  of its double loop, and of a bias vector over \<open>j < len\<close>: the velocity first, then
  the weight from the new velocity. Each iteration reads and writes its own entry only.
\<close>

definition stepV :: "real \<Rightarrow> real \<Rightarrow> real \<Rightarrow> real \<Rightarrow> real" where
  "stepV momentum lr v grad = momentum * v + lr * grad"

definition updateVMat :: "Network \<Rightarrow> nat \<Rightarrow> nat \<Rightarrow> mat \<Rightarrow> mat \<Rightarrow> mat" where
  "updateVMat n rows cols v grad =
    (\<lambda>i j. if i < rows \<and> j < cols
           then stepV (Momentum n) (LearningRate n) (v i j) (grad i j) else v i j)"

definition updateVVec :: "Network \<Rightarrow> nat \<Rightarrow> vec \<Rightarrow> vec \<Rightarrow> vec" where
  "updateVVec n len v grad =
    (\<lambda>j. if j < len then stepV (Momentum n) (LearningRate n) (v j) (grad j) else v j)"

definition addMat :: "nat \<Rightarrow> nat \<Rightarrow> mat \<Rightarrow> mat \<Rightarrow> mat" where
  "addMat rows cols w v = (\<lambda>i j. if i < rows \<and> j < cols then w i j + v i j else w i j)"

definition addVec :: "nat \<Rightarrow> vec \<Rightarrow> vec \<Rightarrow> vec" where
  "addVec len w v = (\<lambda>j. if j < len then w j + v j else w j)"

text \<open>
  \<open>Train\<close>, in source order. \<open>n3\<close> is the network after the output layer's update,
  \<open>n2\<close> after the second layer's; the error of a hidden layer is read from the network
  as it stands when the source computes it.
\<close>

definition trainLayer3 :: "Network \<Rightarrow> vec \<Rightarrow> real \<Rightarrow> Network" where
  "trainLayer3 n input target =
    (let h2 = hidden2 n input;
         delta = outputDelta n input target;
         vw = updateVMat n 128 1 (VWeights3 n) (\<lambda>j k. delta * h2 j);
         vb = updateVVec n 1 (VBias3 n) (\<lambda>k. delta)
     in n\<lparr>VWeights3 := vw, Weights3 := addMat 128 1 (Weights3 n) vw,
          VBias3 := vb, Bias3 := addVec 1 (Bias3 n) vb\<rparr>)"

definition hidden2Error :: "Network \<Rightarrow> vec \<Rightarrow> real \<Rightarrow> Network \<Rightarrow> vec" where
  "hidden2Error n input target n3 =
    (\<lambda>i. if hidden2 n input i \<le> 0 then 0
         else outputDelta n input target * Weights3 n3 i 0)"

definition trainLayer2 :: "Network \<Rightarrow> vec \<Rightarrow> vec \<Rightarrow> Network \<Rightarrow> Network" where
  "trainLayer2 n input h2err n3 =
    (let h1 = hidden1 n input;
         vw = updateVMat n3 256 128 (VWeights2 n3) (\<lambda>i j. h2err j * h1 i);
         vb = updateVVec n3 128 (VBias2 n3) h2err
     in n3\<lparr>VWeights2 := vw, Weights2 := addMat 256 128 (Weights2 n3) vw,
           VBias2 := vb, Bias2 := addVec 128 (Bias2 n3) vb\<rparr>)"

definition hidden1Error :: "Network \<Rightarrow> vec \<Rightarrow> vec \<Rightarrow> Network \<Rightarrow> vec" where
  "hidden1Error n input h2err n2 =
    (\<lambda>i. if hidden1 n input i \<le> 0 then 0
         else (\<Sum>j = 0..<128. h2err j * Weights2 n2 i j))"

definition trainLayer1 :: "vec \<Rightarrow> vec \<Rightarrow> Network \<Rightarrow> Network" where
  "trainLayer1 input h1err n2 =
    (let vw = updateVMat n2 768 256 (VWeights1 n2) (\<lambda>i j. h1err j * input i);
         vb = updateVVec n2 256 (VBias1 n2) h1err
     in n2\<lparr>VWeights1 := vw, Weights1 := addMat 768 256 (Weights1 n2) vw,
           VBias1 := vb, Bias1 := addVec 256 (Bias1 n2) vb\<rparr>)"

definition Train :: "Network \<Rightarrow> vec \<Rightarrow> real \<Rightarrow> Network" where
  "Train n input target =
    (let n3 = trainLayer3 n input target;
         h2err = hidden2Error n input target n3;
         n2 = trainLayer2 n input h2err n3;
         h1err = hidden1Error n input h2err n2
     in trainLayer1 input h1err n2)"

text \<open>
  The gradient step as the specification words it: the errors of both hidden layers are
  taken from the weights the network holds at the start of the call, and the three
  layers are then updated with the same momentum rule.
\<close>

definition TrainStandard :: "Network \<Rightarrow> vec \<Rightarrow> real \<Rightarrow> Network" where
  "TrainStandard n input target =
    (let h2err = hidden2Error n input target n;
         h1err = hidden1Error n input h2err n
     in trainLayer1 input h1err (trainLayer2 n input h2err (trainLayer3 n input target)))"

section \<open>Agent (agent/agent.go): the learning update\<close>

text \<open>
  The agent holds a pointer to its network. The network it points to is passed to, and
  returned by, every operation that trains it, so that two agents sharing one network
  are two agent records and one network value.
\<close>

record Agent =
  AgentColor :: Color
  Epsilon :: real
  Gamma :: real
  StateHistory :: "vec list"
  RewardHistory :: "real list"

definition NewAgent :: "Color \<Rightarrow> Agent" where
  "NewAgent color =
    \<lparr>AgentColor = color, Epsilon = 0.1, Gamma = 0.99, StateHistory = [], RewardHistory = []\<rparr>"

text \<open>\<open>Epsilon *= 0.995\<close>, then the floor.\<close>

definition decayEpsilon :: "real \<Rightarrow> real" where
  "decayEpsilon e = (let e1 = e * 0.995 in if e1 < 0.01 then 0.01 else e1)"

text \<open>
  The loop of \<open>Learn\<close> over the states it visits, most recent first, with the running
  reward.
\<close>

fun learnLoop :: "Network \<Rightarrow> real \<Rightarrow> real \<Rightarrow> vec list \<Rightarrow> Network" where
  "learnLoop n reward gamma [] = n"
| "learnLoop n reward gamma (state # states) =
     learnLoop (Train n state reward) (reward * gamma) gamma states"

definition Learn :: "Agent \<Rightarrow> Network \<Rightarrow> real \<Rightarrow> Agent \<times> Network" where
  "Learn a n finalReward =
    (if length (StateHistory a) = 0 then (a, n)
     else (a\<lparr>Epsilon := decayEpsilon (Epsilon a)\<rparr>,
           learnLoop n finalReward (Gamma a) (rev (StateHistory a))))"

section \<open>Agent (agent/agent.go): move selection\<close>

text \<open>\<open>game.Move{}\<close> and \<open>game.Move{From: game.Position{-1, -1}}\<close>.\<close>

definition zeroMove :: Move where
  "zeroMove = mkMove (mkPos 0 0) (mkPos 0 0)"

definition noResult :: Move where
  "noResult = mkMove (mkPos (- 1) (- 1)) (mkPos 0 0)"

definition pieceTypes :: "PieceType list" where
  "pieceTypes = [Pawn, Knight, Bishop, Rook, Queen, King]"

text \<open>
  \<open>boardToVector\<close>: entry \<open>planeIdx * 64 + row * 8 + col\<close> is 1 when the square holds
  the piece type and colour of the plane.
\<close>

definition boardToVector :: "Board \<Rightarrow> vec" where
  "boardToVector b =
    (\<lambda>idx. if idx < 768
            then (let planeIdx = idx div 64;
                      row = (idx mod 64) div 8;
                      col = idx mod 8;
                      pieceType = pieceTypes ! (planeIdx mod 6);
                      color = (if planeIdx \<ge> 6 then Black else White);
                      piece = Cells b (int row) (int col)
                  in if Type piece = pieceType \<and> Color piece = color then 1 else 0)
            else 0)"

definition evaluatePosition :: "Network \<Rightarrow> Board \<Rightarrow> real" where
  "evaluatePosition n b = Forward n (boardToVector b)"

text \<open>\<open>RecordState\<close> appends the vector of the board to the agent's history.\<close>

definition RecordState :: "Agent \<Rightarrow> Board \<Rightarrow> Agent" where
  "RecordState a board = a\<lparr>StateHistory := StateHistory a @ [boardToVector board]\<rparr>"

text \<open>\<open>math.MaxFloat64\<close>.\<close>

definition maxFloat64 :: real where
  "maxFloat64 = (2 ^ 53 - 1) * 2 ^ 971"

text \<open>
  The two loops of \<open>minimax\<close> over the legal moves. \<open>rec\<close> is the recursive call one
  level down on the board after the move; \<open>None\<close> is a panic of \<open>MakeMove\<close> or of a
  deeper call. The loop stops early when \<open>beta <= alpha\<close>.
\<close>

fun maxLoop :: "(Board \<Rightarrow> real \<Rightarrow> real \<Rightarrow> (real \<times> Move) option) \<Rightarrow> Board \<Rightarrow> Move list
    \<Rightarrow> real \<Rightarrow> real \<Rightarrow> real \<Rightarrow> Move \<Rightarrow> (real \<times> Move) option" where
  "maxLoop rec b [] alpha beta maxEval bestMove = Some (maxEval, bestMove)"
| "maxLoop rec b (move # moves) alpha beta maxEval bestMove =
    (case MakeMove b move of
       None \<Rightarrow> None
     | Some boardCopy \<Rightarrow>
        (case rec boardCopy alpha beta of
           None \<Rightarrow> None
         | Some (eval, _) \<Rightarrow>
            (let maxEval1 = (if eval > maxEval then eval else maxEval);
                 bestMove1 = (if eval > maxEval then move else bestMove);
                 alpha1 = max alpha eval
             in if beta \<le> alpha1 then Some (maxEval1, bestMove1)
                else maxLoop rec b moves alpha1 beta maxEval1 bestMove1)))"

fun minLoop :: "(Board \<Rightarrow> real \<Rightarrow> real \<Rightarrow> (real \<times> Move) option) \<Rightarrow> Board \<Rightarrow> Move list
    \<Rightarrow> real \<Rightarrow> real \<Rightarrow> real \<Rightarrow> Move \<Rightarrow> (real \<times> Move) option" where
  "minLoop rec b [] alpha beta minEval bestMove = Some (minEval, bestMove)"
| "minLoop rec b (move # moves) alpha beta minEval bestMove =
    (case MakeMove b move of
       None \<Rightarrow> None
     | Some boardCopy \<Rightarrow>
        (case rec boardCopy alpha beta of
           None \<Rightarrow> None
         | Some (eval, _) \<Rightarrow>
            (let minEval1 = (if eval < minEval then eval else minEval);
                 bestMove1 = (if eval < minEval then move else bestMove);
                 beta1 = min beta eval
             in if beta1 \<le> alpha then Some (minEval1, bestMove1)
                else minLoop rec b moves alpha beta1 minEval1 bestMove1)))"

primrec minimax :: "nat \<Rightarrow> Network \<Rightarrow> Board \<Rightarrow> real \<Rightarrow> real \<Rightarrow> bool \<Rightarrow> (real \<times> Move) option" where
  "minimax 0 n board alpha beta maximizing = Some (evaluatePosition n board, noResult)"
| "minimax (Suc depth) n board alpha beta maximizing =
    (if GameOver board then Some (evaluatePosition n board, noResult)
     else if length (GetLegalMoves board) = 0 then Some (evaluatePosition n board, noResult)
     else if maximizing
     then maxLoop (\<lambda>boardCopy a bt. minimax depth n boardCopy a bt False) board
            (GetLegalMoves board) alpha beta (- maxFloat64) noResult
     else minLoop (\<lambda>boardCopy a bt. minimax depth n boardCopy a bt True) board
            (GetLegalMoves board) alpha beta maxFloat64 noResult)"

text \<open>
  \<open>ChooseMove\<close>. The two random draws are inputs: \<open>u\<close> is the value of
  \<open>rand.Float64()\<close>, and \<open>rand.Intn(len(moves))\<close>, which lies in \<open>[0, len(moves))\<close>,
  is \<open>pick mod len(moves)\<close>; at most one call of \<open>rand.Intn\<close> happens in a run.
\<close>

definition ChooseMove :: "Agent \<Rightarrow> Network \<Rightarrow> Board \<Rightarrow> real \<Rightarrow> nat \<Rightarrow> Move option" where
  "ChooseMove a n board u pick =
    (let moves = GetLegalMoves board
     in if length moves = 0 then Some zeroMove
        else if u < Epsilon a then Some (moves ! (pick mod length moves))
        else (case minimax 2 n board (- maxFloat64) maxFloat64 True of
                None \<Rightarrow> None
              | Some (_, bestMove) \<Rightarrow>
                 if Row (From bestMove) = - 1 then Some (moves ! (pick mod length moves))
                 else Some bestMove))"

section \<open>Self-play orchestrator (selfplay): the shared-network update\<close>

text \<open>
  Both agents of the manager point to one network (\<open>blackAgent.Network =
  whiteAgent.Network\<close>); that network is the value passed to and returned by
  \<open>trainSharedNetwork\<close>. The database handle plays no part in the update.
\<close>

record SelfPlayManager =
  whiteAgent :: Agent
  blackAgent :: Agent
  gamesCount :: int

fun discounted :: "real \<Rightarrow> real \<Rightarrow> vec list \<Rightarrow> (vec \<times> real) list" where
  "discounted reward gamma [] = []"
| "discounted reward gamma (state # states) =
     (state, reward) # discounted (reward * gamma) gamma states"

definition trainSharedNetwork ::
    "SelfPlayManager \<Rightarrow> Network \<Rightarrow> real \<Rightarrow> real \<Rightarrow> SelfPlayManager \<times> Network" where
  "trainSharedNetwork m n whiteReward blackReward =
    (let allExperiences =
           discounted whiteReward (Gamma (whiteAgent m)) (rev (StateHistory (whiteAgent m)))
           @ discounted blackReward (Gamma (blackAgent m)) (rev (StateHistory (blackAgent m)));
         n1 = foldl (\<lambda>net (state, reward). Train net state reward) n allExperiences
     in (m\<lparr>whiteAgent := (whiteAgent m)\<lparr>Epsilon := decayEpsilon (Epsilon (whiteAgent m))\<rparr>,
           blackAgent := (blackAgent m)\<lparr>Epsilon := decayEpsilon (Epsilon (blackAgent m))\<rparr>\<rparr>,
         n1))"

text \<open>The manager as \<open>NewSelfPlayManager\<close> builds it: two fresh agents.\<close>

definition NewSelfPlayManager :: SelfPlayManager where
  "NewSelfPlayManager = \<lparr>whiteAgent = NewAgent White, blackAgent = NewAgent Black, gamesCount = 0\<rparr>"

text \<open>\<open>k\<close> calls of \<open>Learn(1.0)\<close> in a row on the same agent and network.\<close>

primrec learnRepeat :: "nat \<Rightarrow> Agent \<times> Network \<Rightarrow> Agent \<times> Network" where
  "learnRepeat 0 s = s"
| "learnRepeat (Suc k) s = learnRepeat k (Learn (fst s) (snd s) 1)"

text \<open>
  How \<open>PlayGame\<close> reads the outcome off the board after its loop: the winner's name and
  the rewards of White and Black.
\<close>

definition gameResult :: "Board \<Rightarrow> string \<times> real \<times> real" where
  "gameResult board =
    (if GameOver board
     then (if Winner board = White then (''white'', 1.0, 0.0)
           else if Winner board = Black then (''black'', 0.0, 1.0)
           else (''draw'', 0.5, 0.5))
     else (''draw'', 0.5, 0.5))"





section \<open>Concrete inputs\<close>

text \<open>
  A network whose weights and velocities are zero, except the second layer's biases,
  which are one; the hyperparameters are those of \<open>NewNetwork\<close>.
\<close>

definition zeroNetwork :: Network where
  "zeroNetwork =
    \<lparr>Weights1 = (\<lambda>i j. 0), Bias1 = (\<lambda>j. 0), Weights2 = (\<lambda>i j. 0), Bias2 = (\<lambda>j. 1),
     Weights3 = (\<lambda>i j. 0), Bias3 = (\<lambda>j. 0),
     VWeights1 = (\<lambda>i j. 0), VBias1 = (\<lambda>j. 0), VWeights2 = (\<lambda>i j. 0), VBias2 = (\<lambda>j. 0),
     VWeights3 = (\<lambda>i j. 0), VBias3 = (\<lambda>j. 0),
     LearningRate = 0.001, Momentum = 0.9\<rparr>"

text \<open>A fresh agent that has recorded one (all-zero) state vector.\<close>

definition oneStateAgent :: Agent where
  "oneStateAgent = (NewAgent Black)\<lparr>StateHistory := [\<lambda>i. 0]\<rparr>"

text \<open>
  Boards are built from an empty board on which neither side may castle any more.
\<close>

definition blankBoard :: Board where
  "blankBoard =
    \<lparr>Cells = (\<lambda>r c. emptyCell), CurrentTurn = White, GameOver = False, Winner = White,
     IsCheck = False, EnPassantTarget = None, WhiteKingMoved = True, BlackKingMoved = True,
     WhiteRookAMoved = True, WhiteRookHMoved = True, BlackRookAMoved = True,
     BlackRookHMoved = True, MovesCount = 60\<rparr>"

definition place :: "Board \<Rightarrow> int \<Rightarrow> int \<Rightarrow> PieceType \<Rightarrow> Color \<Rightarrow> Board" where
  "place b r c t color = setCell b r c (mkPiece t color)"

definition fromTo :: "int \<Rightarrow> int \<Rightarrow> int \<Rightarrow> int \<Rightarrow> Move" where
  "fromTo fr fc tr tc = mkMove (mkPos fr fc) (mkPos tr tc)"

text \<open>
  White to move: king b6, queen h7; Black: king a8. The queen stalemates Black on c7
  and mates on b7.
\<close>

definition queenEnding :: Board where
  "queenEnding = place (place (place blankBoard 0 0 King Black) 2 1 King White) 1 7 Queen White"

text \<open>
  Black to move: king h8, rook h5, pawn e7; White: king a5, pawn d5. After e7-e5 the
  black pawn on e5 is all that stands between the rook and the white king.
\<close>

definition pinnedCapture :: Board where
  "pinnedCapture =
    (place (place (place (place (place blankBoard 3 0 King White) 3 3 Pawn White)
       1 4 Pawn Black) 3 7 Rook Black) 0 7 King Black)\<lparr>CurrentTurn := Black\<rparr>"

text \<open>
  White to move: king h1, pawn e2; Black: king d5, pawn d4. The advance e2-e4 gives
  check with the pawn.
\<close>

definition checkingAdvance :: Board where
  "checkingAdvance =
    place (place (place (place blankBoard 6 4 Pawn White) 7 7 King White) 3 3 King Black)
      4 3 Pawn Black"

text \<open>
  Playing a list of moves as a caller of the engine does: each move is tested with
  \<open>IsValidMove\<close> and then applied with \<open>MakeMove\<close>; \<open>None\<close> when a move is refused.
\<close>

fun playLegal :: "Board \<Rightarrow> Move list \<Rightarrow> Board option" where
  "playLegal b [] = Some b"
| "playLegal b (m # ms) =
    (if IsValidMove b m
     then (case MakeMove b m of None \<Rightarrow> None | Some b1 \<Rightarrow> playLegal b1 ms)
     else None)"

text \<open>
  1. g4 b6 2. a4 Bb7 3. Ra3 Bxh1 4. Rg3 Nc6 5. Bh3 Nb8 6. Nf3 Nc6 7. Rg1 Nb8
  8. Rxh1 Nc6.
\<close>

definition rookSwapGame :: "Move list" where
  "rookSwapGame =
    [fromTo 6 6 4 6, fromTo 1 1 2 1,
     fromTo 6 0 4 0, fromTo 0 2 1 1,
     fromTo 7 0 5 0, fromTo 1 1 7 7,
     fromTo 5 0 5 6, fromTo 0 1 2 2,
     fromTo 7 5 5 7, fromTo 2 2 0 1,
     fromTo 7 6 5 5, fromTo 0 1 2 2,
     fromTo 5 6 7 6, fromTo 2 2 0 1,
     fromTo 7 6 7 7, fromTo 0 1 2 2]"

text \<open>
  White to move, king e1 and rook h1 on their home squares and never moved; Black:
  king e8.
\<close>

definition castlingReady :: Board where
  "castlingReady =
    (place (place (place blankBoard 7 4 King White) 7 7 Rook White) 0 4 King Black)
      \<lparr>WhiteKingMoved := False, WhiteRookHMoved := False\<rparr>"


definition zeroInput :: vec where
  "zeroInput = (\<lambda>i. 0)"

section \<open>Properties of the learning update\<close>

lemma learnLoop_foldl:
  "learnLoop n r g states =
     foldl (\<lambda>net k. Train net (states ! k) (r * g ^ k)) n [0..<length states]"
proof (induction states arbitrary: n r)
  case Nil
  then show ?case by simp
next
  case (Cons s states)
  have "[0..<length (s # states)] = 0 # map Suc [0..<length states]"
    by (simp add: upt_conv_Cons map_Suc_upt del: upt_Suc)
  then show ?case
    by (simp add: Cons.IH foldl_map mult.assoc del: upt_Suc)
qed

text \<open>
  Claim C5. For a history of length \<open>n\<close> and a final reward \<open>r\<close>, the network
  returned by \<open>Learn\<close> is the result of exactly \<open>n\<close> calls of \<open>Train\<close>, in the
  order \<open>k = 0, 1, ..., n - 1\<close>, the \<open>k\<close>-th on the state at distance \<open>k\<close> from the
  end of the history and towards the target \<open>r * gamma ^ k\<close>; nothing else trains the
  network.
\<close>

theorem Learn_trains_each_state_once:
  "snd (Learn a n r) =
     foldl (\<lambda>net k. Train net (StateHistory a ! (length (StateHistory a) - 1 - k))
                           (r * Gamma a ^ k))
       n [0..<length (StateHistory a)]"
proof -
  have "foldl (\<lambda>net k. Train net (rev (StateHistory a) ! k) (r * Gamma a ^ k)) n
          [0..<length (StateHistory a)]
        = foldl (\<lambda>net k. Train net (StateHistory a ! (length (StateHistory a) - 1 - k))
                           (r * Gamma a ^ k)) n [0..<length (StateHistory a)]"
    by (rule foldl_cong) (simp_all add: rev_nth)
  then show ?thesis
    by (simp add: Learn_def learnLoop_foldl)
qed

text \<open>
  The shared-network update trains on White's history and then on Black's, each as
  \<open>Learn\<close> does: most recent state first, the reward discounted by the agent's gamma.
\<close>

lemma foldl_discounted:
  "foldl (\<lambda>net (state, reward). Train net state reward) n (discounted r g states)
     = learnLoop n r g states"
  by (induction states arbitrary: n r) simp_all

lemma trainSharedNetwork_network:
  "snd (trainSharedNetwork m n wr br)
     = learnLoop (learnLoop n wr (Gamma (whiteAgent m)) (rev (StateHistory (whiteAgent m))))
         br (Gamma (blackAgent m)) (rev (StateHistory (blackAgent m)))"
  by (simp add: trainSharedNetwork_def Let_def foldl_discounted)

lemma Learn_empty: "StateHistory a = [] \<Longrightarrow> Learn a n r = (a, n)"
  by (simp add: Learn_def)

text \<open>
  \<open>trainSharedNetwork\<close> taken alone has no test for an empty history: on two fresh
  agents it leaves the network unchanged and lowers both agents' epsilon from 0.1 to
  0.0995. \<open>PlayGame\<close>, its only caller, never passes it an empty history (lemma
  \<open>gameLoop_from_NewBoard\<close> below).
\<close>

lemma trainSharedNetwork_on_fresh_agents:
  "Learn (NewAgent White) n wr = (NewAgent White, n)
   \<and> StateHistory (whiteAgent NewSelfPlayManager) = []
   \<and> StateHistory (blackAgent NewSelfPlayManager) = []
   \<and> snd (trainSharedNetwork NewSelfPlayManager n wr br) = n
   \<and> Epsilon (whiteAgent NewSelfPlayManager) = 0.1
   \<and> Epsilon (whiteAgent (fst (trainSharedNetwork NewSelfPlayManager n wr br))) = 0.0995
   \<and> Epsilon (blackAgent NewSelfPlayManager) = 0.1
   \<and> Epsilon (blackAgent (fst (trainSharedNetwork NewSelfPlayManager n wr br))) = 0.0995"
  by (simp add: trainSharedNetwork_def NewSelfPlayManager_def NewAgent_def decayEpsilon_def
      Learn_def)

lemma decayEpsilon_closed:
  "0.01 \<le> e \<Longrightarrow> (decayEpsilon ^^ k) e = max (e * 0.995 ^ k) 0.01"
proof (induction k)
  case 0
  then show ?case by simp
next
  case (Suc k)
  have pos: "0 < (0.995::real) ^ k" by simp
  have "e * 0.995 ^ k * 0.995 \<le> e * 0.995 ^ k"
    using Suc.prems pos by (simp add: mult_left_le)
  then show ?case
    using Suc by (auto simp: decayEpsilon_def Let_def max_def mult.assoc)
qed

lemma learnRepeat_epsilon:
  "StateHistory a \<noteq> [] \<Longrightarrow>
     Epsilon (fst (learnRepeat k (a, n))) = (decayEpsilon ^^ k) (Epsilon a)"
proof (induction k arbitrary: a n)
  case 0
  then show ?case by simp
next
  case (Suc k)
  have "Learn a n 1 = (a\<lparr>Epsilon := decayEpsilon (Epsilon a)\<rparr>,
                       learnLoop n 1 (Gamma a) (rev (StateHistory a)))"
    using Suc.prems by (simp add: Learn_def)
  then show ?case
    using Suc.IH [of "a\<lparr>Epsilon := decayEpsilon (Epsilon a)\<rparr>"] Suc.prems
    by (simp add: funpow_swap1)
qed

lemma pow460: "(0.995::real) ^ 460 \<le> 0.1"
proof -
  let ?q = "0.995::real"
  have s2: "?q ^ 2 \<le> 0.990025" by (simp add: power2_eq_square)
  have s4: "?q ^ 4 \<le> 0.980149501"
  proof -
    have "?q ^ 4 = (?q ^ 2) ^ 2" by simp
    also have "\<dots> \<le> 0.990025 ^ 2" by (rule power_mono [OF s2]) simp
    also have "\<dots> \<le> 0.980149501" by (simp add: power2_eq_square)
    finally show ?thesis .
  qed
  have s8: "?q ^ 8 \<le> 0.960693045"
  proof -
    have "?q ^ 8 = (?q ^ 4) ^ 2" by simp
    also have "\<dots> \<le> 0.980149501 ^ 2" by (rule power_mono [OF s4]) simp
    also have "\<dots> \<le> 0.960693045" by (simp add: power2_eq_square)
    finally show ?thesis .
  qed
  have s16: "?q ^ 16 \<le> 0.922931127"
  proof -
    have "?q ^ 16 = (?q ^ 8) ^ 2" by simp
    also have "\<dots> \<le> 0.960693045 ^ 2" by (rule power_mono [OF s8]) simp
    also have "\<dots> \<le> 0.922931127" by (simp add: power2_eq_square)
    finally show ?thesis .
  qed
  have s32: "?q ^ 32 \<le> 0.851801866"
  proof -
    have "?q ^ 32 = (?q ^ 16) ^ 2" by simp
    also have "\<dots> \<le> 0.922931127 ^ 2" by (rule power_mono [OF s16]) simp
    also have "\<dots> \<le> 0.851801866" by (simp add: power2_eq_square)
    finally show ?thesis .
  qed
  have s64: "?q ^ 64 \<le> 0.725566419"
  proof -
    have "?q ^ 64 = (?q ^ 32) ^ 2" by simp
    also have "\<dots> \<le> 0.851801866 ^ 2" by (rule power_mono [OF s32]) simp
    also have "\<dots> \<le> 0.725566419" by (simp add: power2_eq_square)
    finally show ?thesis .
  qed
  have s128: "?q ^ 128 \<le> 0.526446629"
  proof -
    have "?q ^ 128 = (?q ^ 64) ^ 2" by simp
    also have "\<dots> \<le> 0.725566419 ^ 2" by (rule power_mono [OF s64]) simp
    also have "\<dots> \<le> 0.526446629" by (simp add: power2_eq_square)
    finally show ?thesis .
  qed
  have s256: "?q ^ 256 \<le> 0.277146054"
  proof -
    have "?q ^ 256 = (?q ^ 128) ^ 2" by simp
    also have "\<dots> \<le> 0.526446629 ^ 2" by (rule power_mono [OF s128]) simp
    also have "\<dots> \<le> 0.277146054" by (simp add: power2_eq_square)
    finally show ?thesis .
  qed
  have a: "?q ^ 12 \<le> 0.960693045 * 0.980149501"
  proof -
    have "?q ^ 12 = ?q ^ 8 * ?q ^ 4" by (simp flip: power_add)
    also have "\<dots> \<le> 0.960693045 * 0.980149501"
      by (rule mult_mono [OF s8 s4]) simp_all
    finally show ?thesis .
  qed
  have b: "?q ^ 192 \<le> 0.526446629 * 0.725566419"
  proof -
    have "?q ^ 192 = ?q ^ 128 * ?q ^ 64" by (simp flip: power_add)
    also have "\<dots> \<le> 0.526446629 * 0.725566419"
      by (rule mult_mono [OF s128 s64]) simp_all
    finally show ?thesis .
  qed
  have c: "?q ^ 204 \<le> (0.526446629 * 0.725566419) * (0.960693045 * 0.980149501)"
  proof -
    have "?q ^ 204 = ?q ^ 192 * ?q ^ 12" by (simp flip: power_add)
    also have "\<dots> \<le> (0.526446629 * 0.725566419) * (0.960693045 * 0.980149501)"
      by (rule mult_mono [OF b a]) simp_all
    finally show ?thesis .
  qed
  have "?q ^ 460 = ?q ^ 256 * ?q ^ 204" by (simp flip: power_add)
  also have "\<dots> \<le> 0.277146054 * ((0.526446629 * 0.725566419) * (0.960693045 * 0.980149501))"
    by (rule mult_mono [OF s256 c]) simp_all
  also have "\<dots> \<le> 0.1" by simp
  finally show ?thesis .
qed

lemma pow100: "(0.01::real) < 0.1 * 0.995 ^ 100"
proof -
  have "1 + real 100 * (- 0.005) \<le> (1 + (- 0.005)) ^ 100"
    by (rule Bernoulli_inequality) simp
  then have h: "1 / 2 \<le> (0.995::real) ^ 100" by simp
  have g: "1 / 2 \<le> x \<Longrightarrow> 1 / 100 < x / 10" for x :: real by linarith
  from g [OF h] show ?thesis by simp
qed

lemma floor_reached: "460 \<le> k \<Longrightarrow> (decayEpsilon ^^ k) 0.1 = 0.01"
proof -
  assume k: "460 \<le> k"
  have "(0.995::real) ^ k \<le> 0.995 ^ 460"
    by (rule power_decreasing [OF k]) simp_all
  with pow460 have h: "(0.995::real) ^ k \<le> 0.1" by (rule order_trans [rotated])
  have g: "x \<le> 1 / 10 \<Longrightarrow> x / 10 \<le> 1 / 100" for x :: real by linarith
  from h have "(0.995::real) ^ k \<le> 1 / 10" by simp
  from g [OF this] have "(0.1::real) * 0.995 ^ k \<le> 0.01" by simp
  then show ?thesis by (simp add: decayEpsilon_closed max_def)
qed

text \<open>
  Claim C7, as the code has it. One \<open>Learn(1.0)\<close> call on a non-empty history, with
  epsilon at or above the floor 0.01, strictly lowers epsilon when it was above the
  floor and keeps it when it was at the floor; and from the initial epsilon 0.1,
  epsilon equals the floor after \<open>k\<close> such calls for every \<open>k\<close> from 460 on.
\<close>

theorem Learn_epsilon_decay:
  assumes "StateHistory a \<noteq> []" and "0.01 \<le> Epsilon a"
  shows "(0.01 < Epsilon a \<longrightarrow> Epsilon (fst (Learn a n 1)) < Epsilon a)
       \<and> (Epsilon a = 0.01 \<longrightarrow> Epsilon (fst (Learn a n 1)) = 0.01)
       \<and> (Epsilon a = 0.1 \<longrightarrow> 460 \<le> k \<longrightarrow> Epsilon (fst (learnRepeat k (a, n))) = 0.01)"
proof -
  have one: "Epsilon (fst (Learn a n 1)) = decayEpsilon (Epsilon a)"
    using assms(1) by (simp add: Learn_def)
  have down: "0.01 < Epsilon a \<longrightarrow> decayEpsilon (Epsilon a) < Epsilon a"
    by (auto simp: decayEpsilon_def Let_def)
  have stay: "Epsilon a = 0.01 \<longrightarrow> decayEpsilon (Epsilon a) = 0.01"
    by (auto simp: decayEpsilon_def Let_def)
  have many: "Epsilon a = 0.1 \<longrightarrow> 460 \<le> k \<longrightarrow> Epsilon (fst (learnRepeat k (a, n))) = 0.01"
  proof (intro impI)
    assume e: "Epsilon a = 0.1" and k: "460 \<le> k"
    have "Epsilon (fst (learnRepeat k (a, n))) = (decayEpsilon ^^ k) (Epsilon a)"
      using assms(1) by (rule learnRepeat_epsilon)
    also have "\<dots> = (decayEpsilon ^^ k) 0.1" by (simp only: e)
    also have "\<dots> = 0.01" using k by (rule floor_reached)
    finally show "Epsilon (fst (learnRepeat k (a, n))) = 0.01" .
  qed
  from down stay many show ?thesis unfolding one by blast
qed

theorem Learn_epsilon_decay_witness:
  "StateHistory oneStateAgent \<noteq> [] \<and> 0.01 \<le> Epsilon oneStateAgent
   \<and> 0.01 < Epsilon oneStateAgent \<and> Epsilon oneStateAgent = 0.1
   \<and> Epsilon (fst (Learn oneStateAgent zeroNetwork 1)) < Epsilon oneStateAgent
   \<and> Epsilon (fst (learnRepeat 460 (oneStateAgent, zeroNetwork))) = 0.01"
proof -
  have h: "StateHistory oneStateAgent \<noteq> []" "0.01 \<le> Epsilon oneStateAgent"
    "0.01 < Epsilon oneStateAgent" "Epsilon oneStateAgent = 0.1"
    by (simp_all add: oneStateAgent_def NewAgent_def)
  from Learn_epsilon_decay [OF h(1) h(2), of zeroNetwork 460] h show ?thesis by simp
qed

text \<open>
  After 100 calls of \<open>Learn(1.0)\<close> from the initial epsilon 0.1, on a non-empty
  history, epsilon is still above the floor 0.01.
\<close>

theorem epsilon_after_100_calls_counterexample:
  "StateHistory oneStateAgent \<noteq> [] \<and> Epsilon oneStateAgent = 0.1
   \<and> 0.01 < Epsilon (fst (learnRepeat 100 (oneStateAgent, zeroNetwork)))
   \<and> Epsilon (fst (learnRepeat 100 (oneStateAgent, zeroNetwork))) \<noteq> 0.01"
proof -
  have h: "StateHistory oneStateAgent \<noteq> []" "Epsilon oneStateAgent = 0.1"
    by (simp_all add: oneStateAgent_def NewAgent_def)
  have "Epsilon (fst (learnRepeat 100 (oneStateAgent, zeroNetwork)))
        = (decayEpsilon ^^ 100) (Epsilon oneStateAgent)"
    using h(1) by (rule learnRepeat_epsilon)
  also have "\<dots> = (decayEpsilon ^^ 100) 0.1" by (simp only: h(2))
  also have "\<dots> = max (0.1 * 0.995 ^ 100) 0.01"
    by (rule decayEpsilon_closed) simp
  also have "\<dots> = 0.1 * 0.995 ^ 100"
    using pow100 by (simp only: max_def) simp
  finally have "Epsilon (fst (learnRepeat 100 (oneStateAgent, zeroNetwork)))
        = 0.1 * 0.995 ^ 100" .
  with pow100 have "0.01 < Epsilon (fst (learnRepeat 100 (oneStateAgent, zeroNetwork)))"
    by (simp only:)
  with h show ?thesis by simp
qed

section \<open>Properties of the gradient step\<close>

lemma zero_hidden1: "hidden1 zeroNetwork zeroInput i = 0"
  by (simp add: hidden1_def zeroNetwork_def zeroInput_def relu_def)

lemma zero_hidden2: "hidden2 zeroNetwork zeroInput i = 1"
  by (simp add: hidden2_def zero_hidden1) (simp add: zeroNetwork_def relu_def)

lemma zero_outputSum: "outputSum zeroNetwork zeroInput = 0"
  by (simp add: outputSum_def zeroNetwork_def)

lemma zero_outputDelta: "outputDelta zeroNetwork zeroInput 1 = 1"
  by (simp add: outputDelta_def zero_outputSum tanhDerivative_def)

lemma zero_layer3_weight:
  "Weights3 (trainLayer3 zeroNetwork zeroInput 1) 0 0 = 0.001"
  by (simp add: trainLayer3_def Let_def zero_hidden2 zero_outputDelta updateVMat_def addMat_def
      stepV_def) (simp add: zeroNetwork_def)

lemma zero_h2err_code:
  "hidden2Error zeroNetwork zeroInput 1 (trainLayer3 zeroNetwork zeroInput 1) 0 = 0.001"
  by (simp add: hidden2Error_def zero_hidden2 zero_outputDelta zero_layer3_weight)

lemma zero_h2err_std:
  "hidden2Error zeroNetwork zeroInput 1 zeroNetwork 0 = 0"
  by (simp add: hidden2Error_def zero_hidden2 zero_outputDelta) (simp add: zeroNetwork_def)

lemma Bias2_trainLayer1: "Bias2 (trainLayer1 input h1err n2) = Bias2 n2"
  by (simp add: trainLayer1_def Let_def)

lemma Bias2_trainLayer2:
  "Bias2 (trainLayer2 n input h2err n3) 0
     = Bias2 n3 0 + (Momentum n3 * VBias2 n3 0 + LearningRate n3 * h2err 0)"
  by (simp add: trainLayer2_def Let_def addVec_def updateVVec_def stepV_def)

lemma layer3_frame:
  "Bias2 (trainLayer3 n input target) = Bias2 n"
  "VBias2 (trainLayer3 n input target) = VBias2 n"
  "Momentum (trainLayer3 n input target) = Momentum n"
  "LearningRate (trainLayer3 n input target) = LearningRate n"
  by (simp_all add: trainLayer3_def Let_def)

text \<open>
  The output layer is updated as the momentum rule says, from the gradient
  \<open>outputDelta * hidden2[j]\<close> at the start-of-call weights.
\<close>

lemma Train_output_layer:
  assumes "j < 128"
  shows "VWeights3 (Train n input target) j 0
           = Momentum n * VWeights3 n j 0
             + LearningRate n * (outputDelta n input target * hidden2 n input j)"
    and "Weights3 (Train n input target) j 0
           = Weights3 n j 0 + VWeights3 (Train n input target) j 0"
  using assms
  by (simp_all add: Train_def trainLayer1_def trainLayer2_def trainLayer3_def Let_def
      updateVMat_def addMat_def stepV_def)

text \<open>
  Claim C6. On the network \<open>zeroNetwork\<close>, the zero input and the target 1, the
  gradient step taken from the start-of-call weights leaves the first bias of the
  second layer at 1, while \<open>Train\<close> moves it to 1.000001: the error of the second
  hidden layer is read from the output weights after their update.
\<close>

theorem Train_uses_updated_weights:
  "Bias2 zeroNetwork 0 = 1
   \<and> Bias2 (TrainStandard zeroNetwork zeroInput 1) 0 = 1
   \<and> Bias2 (Train zeroNetwork zeroInput 1) 0 = 1.000001"
proof -
  have p: "Bias2 zeroNetwork 0 = 1" "VBias2 zeroNetwork 0 = 0"
    "Momentum zeroNetwork = 0.9" "LearningRate zeroNetwork = 0.001"
    by (simp_all add: zeroNetwork_def)
  have std: "Bias2 (TrainStandard zeroNetwork zeroInput 1) 0 = 1"
    by (simp add: TrainStandard_def Let_def Bias2_trainLayer1 Bias2_trainLayer2 layer3_frame
        zero_h2err_std p)
  have code: "Bias2 (Train zeroNetwork zeroInput 1) 0 = 1.000001"
    by (simp add: Train_def Let_def Bias2_trainLayer1 Bias2_trainLayer2 layer3_frame
        zero_h2err_code p)
  from p(1) std code show ?thesis by simp
qed

section \<open>Properties of the board engine\<close>

lemma mk_simps [simp]:
  "Row (mkPos r c) = r" "Col (mkPos r c) = c"
  "From (mkMove f t) = f" "To (mkMove f t) = t"
  "Type (mkPiece ty color) = ty" "Color (mkPiece ty color) = color"
  by (simp_all add: mkPos_def mkMove_def mkPiece_def)

lemma Color_not_Black [simp]: "(c \<noteq> Black) = (c = White)"
  by (cases c) simp_all

lemma Color_not_White [simp]: "(c \<noteq> White) = (c = Black)"
  by (cases c) simp_all

lemma Black_not_Color [simp]: "(Black \<noteq> c) = (c = White)"
  by (cases c) simp_all

lemma White_not_Color [simp]: "(White \<noteq> c) = (c = Black)"
  by (cases c) simp_all

lemma set_idx8: "set idx8 = {0..7}"
  by (auto simp: idx8_def)

lemma set_squares: "set squares = {(r, c). 0 \<le> r \<and> r \<le> 7 \<and> 0 \<le> c \<and> c \<le> 7}"
  by (auto simp: squares_def set_idx8)

lemma mkMove_eta: "mkMove (mkPos (Row (From m)) (Col (From m))) (mkPos (Row (To m)) (Col (To m))) = m"
  by (simp add: mkMove_def mkPos_def)

text \<open>
  \<open>isPathClear\<close> does not panic on the moves that reach it: both squares on the
  board and on one row, column or diagonal.
\<close>

lemma pathLoop_returns:
  assumes "toRow = row + int k * rs" and "toCol = col + int k * cs"
    and "rs \<in> {- 1, 0, 1}" and "cs \<in> {- 1, 0, 1}" and "rs \<noteq> 0 \<or> cs \<noteq> 0"
    and "onBoard toRow toCol" and "onBoard row col"
  shows "pathLoop b rs cs toRow toCol row col \<noteq> None"
  using assms
proof (induction k arbitrary: row col)
  case 0
  then show ?case by (simp add: pathLoop.simps)
next
  case (Suc k)
  have step: "toRow = (row + rs) + int k * rs" "toCol = (col + cs) + int k * cs"
    using Suc.prems(1,2) by (simp_all add: algebra_simps)
  have inside: "onBoard (row + rs) (col + cs)"
    using Suc.prems(1,2,3,4,6,7) by (auto simp: onBoard_def algebra_simps)
  have ih: "pathLoop b rs cs toRow toCol (row + rs) (col + cs) \<noteq> None"
    using Suc.IH [OF step Suc.prems(3,4,5,6) inside] .
  show ?case
    using Suc.prems(5,7) ih
    by (subst pathLoop.simps) (auto simp: onBoard_def)
qed

lemma isPathClear_returns:
  assumes "onBoard (Row (From m)) (Col (From m))" and "onBoard (Row (To m)) (Col (To m))"
    and "\<bar>Row (To m) - Row (From m)\<bar> = \<bar>Col (To m) - Col (From m)\<bar>
         \<or> Row (From m) = Row (To m) \<or> Col (From m) = Col (To m)"
  shows "isPathClear b m \<noteq> None"
proof (cases "From m = To m")
  case True
  then show ?thesis by (simp add: isPathClear_def pathLoop.simps)
next
  case False
  let ?dr = "Row (To m) - Row (From m)" and ?dc = "Col (To m) - Col (From m)"
  let ?rs = "if Row (To m) > Row (From m) then 1 else if Row (To m) < Row (From m) then - 1 else 0 :: int"
  let ?cs = "if Col (To m) > Col (From m) then 1 else if Col (To m) < Col (From m) then - 1 else 0 :: int"
  let ?d = "nat (max \<bar>?dr\<bar> \<bar>?dc\<bar>)"
  from False have ne: "?dr \<noteq> 0 \<or> ?dc \<noteq> 0"
    by (auto intro: Position.equality)
  then have dpos: "0 < ?d" by auto
  have r: "Row (To m) = (Row (From m) + ?rs) + int (?d - 1) * ?rs"
    using assms(3) ne by (auto simp: algebra_simps max_def abs_if split: if_splits)
  have c: "Col (To m) = (Col (From m) + ?cs) + int (?d - 1) * ?cs"
    using assms(3) ne by (auto simp: algebra_simps max_def abs_if split: if_splits)
  have nz: "?rs \<noteq> 0 \<or> ?cs \<noteq> 0" using ne by auto
  have start: "onBoard (Row (From m) + ?rs) (Col (From m) + ?cs)"
    using assms(1,2) by (auto simp: onBoard_def)
  have "pathLoop b ?rs ?cs (Row (To m)) (Col (To m)) (Row (From m) + ?rs) (Col (From m) + ?cs)
          \<noteq> None"
    by (rule pathLoop_returns [OF r c _ _ nz assms(2) start]) auto
  then show ?thesis by (simp add: isPathClear_def Let_def)
qed

lemma IsValidMove_facts:
  assumes "IsValidMove b m"
  shows "onBoard (Row (From m)) (Col (From m))"
    and "onBoard (Row (To m)) (Col (To m))"
    and "Type (getCell b (From m)) \<noteq> Empty"
    and "Color (getCell b (From m)) = CurrentTurn b"
    and "Type (getCell b (To m)) = Empty \<or> Color (getCell b (To m)) \<noteq> Color (getCell b (From m))"
    and "pieceRule b m (getCell b (From m))"
    and "\<not> wouldBeInCheck b m (Color (getCell b (From m)))"
  using assms by (auto simp: IsValidMove_def onBoard_def Let_def split: if_splits)

lemma GetLegalMoves_iff: "m \<in> set (GetLegalMoves b) \<longleftrightarrow> IsValidMove b m"
proof
  assume "m \<in> set (GetLegalMoves b)"
  then show "IsValidMove b m"
    by (auto simp: GetLegalMoves_def split: if_splits)
next
  assume v: "IsValidMove b m"
  note f = IsValidMove_facts [OF v]
  let ?r = "Row (From m)" and ?c = "Col (From m)"
  have src: "(?r, ?c) \<in> set squares" and dst: "(Row (To m), Col (To m)) \<in> set squares"
    using f(1,2) by (auto simp: set_squares onBoard_def)
  define f where "f = (\<lambda>(row, col).
        if Type (Cells b row col) = Empty \<or> Color (Cells b row col) \<noteq> CurrentTurn b
        then []
        else filter (IsValidMove b)
               (map (\<lambda>(toRow, toCol). mkMove (mkPos row col) (mkPos toRow toCol)) squares))"
  have "m \<in> (\<lambda>(toRow, toCol). mkMove (mkPos ?r ?c) (mkPos toRow toCol)) ` set squares"
    using dst mkMove_eta [of m] by (force simp: image_iff)
  then have "m \<in> set (f (?r, ?c))"
    using v f(3,4) by (simp add: f_def getCell_def)
  then have "m \<in> set (concat (map f squares))"
    using src by (simp only: set_concat set_map) blast
  then show "m \<in> set (GetLegalMoves b)"
    by (simp add: GetLegalMoves_def f_def)
qed

lemma IsValidMove_MakeMove: 
  assumes "IsValidMove b m"
  shows "MakeMove b m = Some (checkGameOver (applyMove b m))"
proof -
  note f = IsValidMove_facts [OF assms]
  have "onBoard (epCapturedRow b m) (Col (To m))" if ep: "epCapture b m"
  proof -
    from ep have pawn: "Type (getCell b (From m)) = Pawn" by (simp add: epCapture_def)
    with f(6) have "isValidPawnMove b m (getCell b (From m))" by (simp add: pieceRule_def)
    then show ?thesis using f(1,2)
      by (auto simp: isValidPawnMove_def Let_def onBoard_def epCapturedRow_def split: if_splits)
  qed
  then show ?thesis using f(1,2) by (auto simp: MakeMove_def)
qed

lemma checkGameOver_frame [simp]:
  "Cells (checkGameOver b) = Cells b"
  "CurrentTurn (checkGameOver b) = CurrentTurn b"
  "EnPassantTarget (checkGameOver b) = EnPassantTarget b"
  "IsCheck (checkGameOver b) = IsCheck b"
  "MovesCount (checkGameOver b) = MovesCount b"
  by (simp_all add: checkGameOver_def Let_def)

lemma getCell_checkGameOver [simp]: "getCell (checkGameOver b) p = getCell b p"
  by (simp add: getCell_def)

lemma applyMove_EnPassantTarget:
  "EnPassantTarget (applyMove b m) =
     (if Type (getCell b (From m)) = Pawn \<and> \<bar>Row (To m) - Row (From m)\<bar> = 2
      then Some (mkPos ((Row (From m) + Row (To m)) div 2) (Col (To m)))
      else None)"
  by (simp add: applyMove_def updateFlags_def Let_def)

lemma updateFlags_Cells [simp]: "Cells (updateFlags b m p) = Cells b"
  by (simp add: updateFlags_def Let_def)

lemma applyMove_CurrentTurn:
  "CurrentTurn (applyMove b m) = (if CurrentTurn b = White then Black else White)"
  by (simp add: applyMove_def updateFlags_def movePieces_def Let_def setCell_def)

lemma MakeMove_Some:
  "MakeMove b m = Some b1 \<Longrightarrow> b1 = checkGameOver (applyMove b m)"
  by (auto simp: MakeMove_def split: if_splits)

lemma MakeMove_EnPassantTarget:
  "MakeMove b m = Some b1 \<Longrightarrow>
   EnPassantTarget b1 =
     (if Type (getCell b (From m)) = Pawn \<and> \<bar>Row (To m) - Row (From m)\<bar> = 2
      then Some (mkPos ((Row (From m) + Row (To m)) div 2) (Col (To m)))
      else None)"
  by (auto dest!: MakeMove_Some simp: applyMove_EnPassantTarget)

text \<open>A legal pawn move over two rows is the double advance from the start row.\<close>

lemma double_advance_shape:
  assumes "IsValidMove b m" and "Type (getCell b (From m)) = Pawn"
    and "\<bar>Row (To m) - Row (From m)\<bar> = 2"
  shows "Col (To m) = Col (From m)"
    and "Row (From m) = (if Color (getCell b (From m)) = Black then 1 else 6)"
    and "Row (To m) = (if Color (getCell b (From m)) = Black then 3 else 4)"
    and "Type (Cells b (if Color (getCell b (From m)) = Black then 2 else 5) (Col (From m))) = Empty"
    and "0 \<le> Col (From m)" and "Col (From m) \<le> 7"
proof -
  note f = IsValidMove_facts [OF assms(1)]
  from f(6) assms(2) have p: "isValidPawnMove b m (getCell b (From m))"
    by (simp add: pieceRule_def)
  show "Col (To m) = Col (From m)"
    "Row (From m) = (if Color (getCell b (From m)) = Black then 1 else 6)"
    "Row (To m) = (if Color (getCell b (From m)) = Black then 3 else 4)"
    "Type (Cells b (if Color (getCell b (From m)) = Black then 2 else 5) (Col (From m))) = Empty"
    using p assms(3) by (auto simp: isValidPawnMove_def Let_def split: if_splits)
  show "0 \<le> Col (From m)" "Col (From m) \<le> 7"
    using f(1) by (simp_all add: onBoard_def)
qed

lemma double_advance_middle_stays_empty:
  assumes "IsValidMove b m" and "Type (getCell b (From m)) = Pawn"
    and "\<bar>Row (To m) - Row (From m)\<bar> = 2"
  shows "Type (Cells (applyMove b m) ((Row (From m) + Row (To m)) div 2) (Col (To m))) = Empty"
proof -
  note s = double_advance_shape [OF assms]
  show ?thesis
  proof (cases "Color (getCell b (From m)) = Black")
    case True
    with s show ?thesis
      using assms(2)
      by (auto simp: applyMove_def movePieces_def Let_def setCell_def emptyCell_def
          epCapturedRow_def)
  next
    case False
    with s show ?thesis
      using assms(2)
      by (auto simp: applyMove_def movePieces_def Let_def setCell_def emptyCell_def
          epCapturedRow_def)
  qed
qed

lemma pawn_diagonal_needs_target:
  assumes "Type (getCell b (From m)) = Pawn" and "\<bar>Col (To m) - Col (From m)\<bar> = 1"
    and "EnPassantTarget b \<noteq> Some (To m)" and "Type (getCell b (To m)) = Empty"
  shows "\<not> IsValidMove b m"
proof
  assume "IsValidMove b m"
  from IsValidMove_facts(6) [OF this] assms(1)
  have "isValidPawnMove b m (getCell b (From m))" by (simp add: pieceRule_def)
  with assms(2,3,4) show False
    by (auto simp: isValidPawnMove_def Let_def split: if_splits option.splits
        intro: Position.equality)
qed

text \<open>
  The en-passant target. Every \<open>MakeMove\<close> that returns leaves the target empty
  unless the move was a pawn move over two rows, and then the target is the square
  between the two. After a legal two-square pawn advance the target is the square
  passed over, and for an opposing pawn standing beside the advanced pawn the diagonal
  move onto that square is accepted by the pawn rule. After any further legal move the
  target is no longer that square, and on every board where the target is not that
  square and the square is empty, the pawn's move onto it is illegal.
\<close>

lemma en_passant_target_bookkeeping:
  assumes adv: "IsValidMove b adv"
    and pawn: "Type (getCell b (From adv)) = Pawn"
    and two: "\<bar>Row (To adv) - Row (From adv)\<bar> = 2"
    and b1: "MakeMove b adv = Some b1"
    and capFrom: "From cap = mkPos (Row (To adv)) c" "\<bar>c - Col (To adv)\<bar> = 1" "0 \<le> c" "c \<le> 7"
    and capPawn: "Type (getCell b1 (From cap)) = Pawn"
      "Color (getCell b1 (From cap)) \<noteq> Color (getCell b (From adv))"
    and capTo: "To cap = mkPos ((Row (From adv) + Row (To adv)) div 2) (Col (To adv))"
    and nxt: "IsValidMove b1 m1" "MakeMove b1 m1 = Some b2"
  shows "(\<forall>b0 m0 b0'. MakeMove b0 m0 = Some b0' \<longrightarrow>
            EnPassantTarget b0' =
              (if Type (getCell b0 (From m0)) = Pawn \<and> \<bar>Row (To m0) - Row (From m0)\<bar> = 2
               then Some (mkPos ((Row (From m0) + Row (To m0)) div 2) (Col (To m0)))
               else None))
       \<and> EnPassantTarget b1 = Some (To cap)
       \<and> Col (To cap) = Col (From adv) \<and> \<bar>Row (To cap) - Row (From adv)\<bar> = 1
       \<and> \<bar>Row (To adv) - Row (To cap)\<bar> = 1
       \<and> isValidPawnMove b1 cap (getCell b1 (From cap))
       \<and> EnPassantTarget b2 \<noteq> Some (To cap)
       \<and> (\<forall>b'. Type (getCell b' (From cap)) = Pawn \<and> EnPassantTarget b' \<noteq> Some (To cap)
                 \<and> Type (getCell b' (To cap)) = Empty \<longrightarrow> \<not> IsValidMove b' cap)"
proof -
  note s = double_advance_shape [OF adv pawn two]
  note f = IsValidMove_facts [OF adv]
  have b1_eq: "b1 = checkGameOver (applyMove b adv)"
    using b1 by (rule MakeMove_Some)
  have general: "\<forall>b0 m0 b0'. MakeMove b0 m0 = Some b0' \<longrightarrow>
            EnPassantTarget b0' =
              (if Type (getCell b0 (From m0)) = Pawn \<and> \<bar>Row (To m0) - Row (From m0)\<bar> = 2
               then Some (mkPos ((Row (From m0) + Row (To m0)) div 2) (Col (To m0)))
               else None)"
    by (simp add: MakeMove_EnPassantTarget)
  have target: "EnPassantTarget b1 = Some (To cap)"
    using MakeMove_EnPassantTarget [OF b1] pawn two capTo by simp
  have geometry: "Col (To cap) = Col (From adv)" "\<bar>Row (To cap) - Row (From adv)\<bar> = 1"
    "\<bar>Row (To adv) - Row (To cap)\<bar> = 1"
    using s(1,2,3) capTo by (auto split: if_splits)
  have turn1: "CurrentTurn b1 = Color (getCell b1 (From cap))"
    using capPawn(2) f(4) by (auto simp: b1_eq applyMove_CurrentTurn)
  have rule: "isValidPawnMove b1 cap (getCell b1 (From cap))"
    using target capFrom capTo capPawn(2) s(1,2,3)
    by (auto simp: isValidPawnMove_def Let_def split: if_splits)
  have cleared: "EnPassantTarget b2 \<noteq> Some (To cap)"
  proof (cases "Type (getCell b1 (From m1)) = Pawn \<and> \<bar>Row (To m1) - Row (From m1)\<bar> = 2")
    case False
    then show ?thesis using MakeMove_EnPassantTarget [OF nxt(2)] by auto
  next
    case True
    note s1 = double_advance_shape [OF nxt(1) conjunct1 [OF True] conjunct2 [OF True]]
    have col1: "Color (getCell b1 (From m1)) = Color (getCell b1 (From cap))"
      using IsValidMove_facts(4) [OF nxt(1)] turn1 by simp
    have "EnPassantTarget b2 = Some (mkPos ((Row (From m1) + Row (To m1)) div 2) (Col (To m1)))"
      using MakeMove_EnPassantTarget [OF nxt(2)] True by simp
    moreover have "(Row (From m1) + Row (To m1)) div 2 \<noteq> Row (To cap)"
      using s1(2,3) s(2,3) capTo col1 capPawn(2) by (auto split: if_splits)
    ultimately show ?thesis by (metis mk_simps(1) option.inject)
  qed
  have later: "\<forall>b'. Type (getCell b' (From cap)) = Pawn \<and> EnPassantTarget b' \<noteq> Some (To cap)
                 \<and> Type (getCell b' (To cap)) = Empty \<longrightarrow> \<not> IsValidMove b' cap"
  proof (intro allI impI)
    fix b'
    assume h: "Type (getCell b' (From cap)) = Pawn \<and> EnPassantTarget b' \<noteq> Some (To cap)
                 \<and> Type (getCell b' (To cap)) = Empty"
    have "\<bar>Col (To cap) - Col (From cap)\<bar> = 1"
      using capFrom(1,2) capTo by simp
    with h show "\<not> IsValidMove b' cap"
      by (intro pawn_diagonal_needs_target) simp_all
  qed
  from general target geometry rule cleared later show ?thesis by blast
qed

text \<open>
  Claim C9. On \<open>checkingAdvance\<close> White plays e2-e4, which sets the target e3 and
  checks the black king on d5. The black pawn on d4 stands beside the advanced pawn
  and the pawn rule accepts d4xe3 en passant; applied by \<open>MakeMove\<close>, the capture
  removes the checking pawn and leaves the black king out of check, so it is legal in
  this ply. \<open>IsValidMove\<close> refuses it: \<open>wouldBeInCheck\<close> leaves the captured pawn on
  e4.
\<close>

theorem IsValidMove_refuses_capture_of_checking_pawn:
  "IsValidMove checkingAdvance (fromTo 6 4 4 4)
   \<and> Type (getCell checkingAdvance (From (fromTo 6 4 4 4))) = Pawn
   \<and> (case MakeMove checkingAdvance (fromTo 6 4 4 4) of
         None \<Rightarrow> False
       | Some b1 \<Rightarrow>
           EnPassantTarget b1 = Some (mkPos 5 4) \<and> CurrentTurn b1 = Black
           \<and> \<not> GameOver b1
           \<and> getCell b1 (mkPos 4 4) = mkPiece Pawn White
           \<and> getCell b1 (mkPos 4 3) = mkPiece Pawn Black
           \<and> isInCheck b1 Black
           \<and> isValidPawnMove b1 (fromTo 4 3 5 4) (mkPiece Pawn Black)
           \<and> wouldBeInCheck b1 (fromTo 4 3 5 4) Black
           \<and> \<not> IsValidMove b1 (fromTo 4 3 5 4)
           \<and> (case MakeMove b1 (fromTo 4 3 5 4) of
                 None \<Rightarrow> False
               | Some b2 \<Rightarrow>
                   Type (getCell b2 (mkPos 4 4)) = Empty
                   \<and> getCell b2 (mkPos 5 4) = mkPiece Pawn Black
                   \<and> \<not> isInCheck b2 Black))"
  by code_simp

text \<open>
  What \<open>IsValidMove\<close> tests before it accepts a move of a king two columns along its
  row: the has-moved flag of that king and the has-moved flag of the rook's corner are
  unset, a rook of that colour stands on the corner, every square strictly between
  king and rook is empty, and the opponent attacks neither the king's square nor any
  square from the one next to the king up to and including the destination.
\<close>

lemma castling_tests:
  assumes valid: "IsValidMove b m"
    and king: "Type (getCell b (From m)) = King"
    and row: "Row (To m) = Row (From m)"
    and two: "\<bar>Col (To m) - Col (From m)\<bar> = 2"
  shows "(if Color (getCell b (From m)) = White then \<not> WhiteKingMoved b else \<not> BlackKingMoved b)
       \<and> (if Color (getCell b (From m)) = White
           then (if Col (To m) > Col (From m) then \<not> WhiteRookHMoved b else \<not> WhiteRookAMoved b)
           else (if Col (To m) > Col (From m) then \<not> BlackRookHMoved b else \<not> BlackRookAMoved b))
       \<and> Type (Cells b (Row (From m)) (if Col (To m) > Col (From m) then 7 else 0)) = Rook
       \<and> (\<forall>col. min (Col (From m)) (if Col (To m) > Col (From m) then 7 else 0) < col
                 \<and> col < max (Col (From m)) (if Col (To m) > Col (From m) then 7 else 0)
              \<longrightarrow> Type (Cells b (Row (From m)) col) = Empty)
       \<and> \<not> isSquareUnderAttack b (From m) (opponent (Color (getCell b (From m))))
       \<and> (\<forall>col. (Col (From m) < col \<and> col \<le> Col (To m)) \<or> (Col (To m) \<le> col \<and> col < Col (From m))
              \<longrightarrow> \<not> isSquareUnderAttack b (mkPos (Row (From m)) col)
                      (opponent (Color (getCell b (From m)))))
       \<and> \<not> isSquareUnderAttack b (To m) (opponent (Color (getCell b (From m))))"
proof -
  let ?piece = "getCell b (From m)"
  have "pieceRule b m ?piece" using valid by (rule IsValidMove_facts(6))
  with king have "isValidKingMove b m ?piece" by (simp add: pieceRule_def)
  with row two have cc: "canCastle b m ?piece"
    by (simp add: isValidKingMove_def Let_def)
  have opp: "(if Color ?piece = Black then White else Black) = opponent (Color ?piece)"
    by (simp add: opponent_def)
  have flags: "(if Color ?piece = White then \<not> WhiteKingMoved b else \<not> BlackKingMoved b)"
    using cc by (auto simp: canCastle_def split: if_splits)
  have rest: "(if Color ?piece = White
           then (if Col (To m) > Col (From m) then \<not> WhiteRookHMoved b else \<not> WhiteRookAMoved b)
           else (if Col (To m) > Col (From m) then \<not> BlackRookHMoved b else \<not> BlackRookAMoved b))"
    "Type (Cells b (Row (From m)) (if Col (To m) > Col (From m) then 7 else 0)) = Rook"
    "\<not> list_ex (\<lambda>col. Type (Cells b (Row (From m)) col) \<noteq> Empty)
        [min (Col (From m)) (if Col (To m) > Col (From m) then 7 else 0) + 1 ..
         max (Col (From m)) (if Col (To m) > Col (From m) then 7 else 0) - 1]"
    "\<not> isSquareUnderAttack b (From m) (opponent (Color ?piece))"
    "\<not> list_ex (\<lambda>col. isSquareUnderAttack b (mkPos (Row (From m)) col) (opponent (Color ?piece)))
        (if Col (To m) < Col (From m) then rev [Col (To m) .. Col (From m) - 1]
         else [Col (From m) + 1 .. Col (To m)])"
    using cc unfolding canCastle_def Let_def opp by (simp_all split: if_splits)
  have between: "\<forall>col. min (Col (From m)) (if Col (To m) > Col (From m) then 7 else 0) < col
                 \<and> col < max (Col (From m)) (if Col (To m) > Col (From m) then 7 else 0)
              \<longrightarrow> Type (Cells b (Row (From m)) col) = Empty"
    using rest(3) by (auto simp: list_ex_iff)
  have transit: "\<forall>col. (Col (From m) < col \<and> col \<le> Col (To m)) \<or> (Col (To m) \<le> col \<and> col < Col (From m))
              \<longrightarrow> \<not> isSquareUnderAttack b (mkPos (Row (From m)) col) (opponent (Color ?piece))"
    using rest(5) by (auto simp: list_ex_iff split: if_splits)
  have "To m = mkPos (Row (From m)) (Col (To m))"
    using row by (simp add: mkPos_def)
  moreover have "(Col (From m) < Col (To m) \<and> Col (To m) \<le> Col (To m))
      \<or> (Col (To m) \<le> Col (To m) \<and> Col (To m) < Col (From m))"
    using two by auto
  ultimately have dest: "\<not> isSquareUnderAttack b (To m) (opponent (Color ?piece))"
    using transit by metis
  from flags rest(1,2,4) between transit dest show ?thesis by blast
qed

lemma castlingReady_valid: "IsValidMove castlingReady (fromTo 7 4 7 6)"
  by code_simp

lemma castlingReady_king: "Type (getCell castlingReady (From (fromTo 7 4 7 6))) = King
   \<and> Color (getCell castlingReady (From (fromTo 7 4 7 6))) = White \<and> opponent White = Black"
  by code_simp

lemma castlingReady_castles:
  "IsValidMove castlingReady (fromTo 7 4 7 6)
   \<and> Type (getCell castlingReady (From (fromTo 7 4 7 6))) = King
   \<and> Row (To (fromTo 7 4 7 6)) = Row (From (fromTo 7 4 7 6))
   \<and> \<bar>Col (To (fromTo 7 4 7 6)) - Col (From (fromTo 7 4 7 6))\<bar> = 2
   \<and> \<not> WhiteKingMoved castlingReady \<and> \<not> WhiteRookHMoved castlingReady
   \<and> Type (Cells castlingReady 7 5) = Empty \<and> Type (Cells castlingReady 7 6) = Empty
   \<and> \<not> isSquareUnderAttack castlingReady (mkPos 7 4) Black
   \<and> \<not> isSquareUnderAttack castlingReady (mkPos 7 5) Black
   \<and> \<not> isSquareUnderAttack castlingReady (mkPos 7 6) Black"
proof -
  have h: "Row (To (fromTo 7 4 7 6)) = Row (From (fromTo 7 4 7 6))"
    "\<bar>Col (To (fromTo 7 4 7 6)) - Col (From (fromTo 7 4 7 6))\<bar> = 2"
    by (simp_all add: fromTo_def)
  have k: "Type (getCell castlingReady (From (fromTo 7 4 7 6))) = King"
    using castlingReady_king by simp
  from castling_tests [OF castlingReady_valid k h] castlingReady_king
    castlingReady_valid h
  show ?thesis by (simp add: fromTo_def)
qed

text \<open>
  Claim C3. \<open>rookSwapGame\<close> is a legal game of sixteen plies from the initial
  position. After six plies a black bishop has captured the rook on h1, which never
  moved, and White's other rook stands on a3. That rook then goes to g3, g1 and h1.
  \<open>MakeMove\<close> marks a rook as moved by the column it leaves, so the flag of the
  h-corner is still unset, and \<open>IsValidMove\<close> accepts White castling king side with a
  rook that has moved four times.
\<close>

theorem castling_accepted_with_moved_rook:
  "(case playLegal NewBoard (take 6 rookSwapGame) of
      None \<Rightarrow> False
    | Some b6 \<Rightarrow>
        getCell b6 (mkPos 7 7) = mkPiece Bishop Black
        \<and> Type (getCell b6 (mkPos 7 0)) = Empty
        \<and> getCell b6 (mkPos 5 0) = mkPiece Rook White
        \<and> WhiteRookAMoved b6 \<and> \<not> WhiteRookHMoved b6
        \<and> (case playLegal b6 (drop 6 rookSwapGame) of
              None \<Rightarrow> False
            | Some b16 \<Rightarrow>
                MovesCount b16 = 16 \<and> CurrentTurn b16 = White \<and> \<not> GameOver b16
                \<and> Type (getCell b16 (mkPos 5 0)) = Empty
                \<and> getCell b16 (mkPos 7 7) = mkPiece Rook White
                \<and> getCell b16 (mkPos 7 4) = mkPiece King White
                \<and> \<not> WhiteKingMoved b16 \<and> \<not> WhiteRookHMoved b16
                \<and> IsValidMove b16 (fromTo 7 4 7 6)))"
  by code_simp

















text \<open>
  Claim C2. In the ending \<open>queenEnding\<close> the queen move to c7 stalemates Black and the
  queen move to b7 mates Black. \<open>MakeMove\<close> ends the game in both cases, and in both
  it records White as the winner: a stalemate carries the same result as a win of
  White, and the self-play loop reads it as one (reward 1 for White, 0 for Black).
\<close>

theorem stalemate_recorded_as_white_win:
  "(case MakeMove queenEnding (fromTo 1 7 1 2) of
      None \<Rightarrow> False
    | Some b1 \<Rightarrow>
        CurrentTurn b1 = Black \<and> GetLegalMoves b1 = [] \<and> \<not> isInCheck b1 Black
        \<and> \<not> IsCheck b1 \<and> GameOver b1 \<and> Winner b1 = White
        \<and> gameResult b1 = (''white'', 1.0, 0.0))
   \<and> (case MakeMove queenEnding (fromTo 1 7 1 1) of
         None \<Rightarrow> False
       | Some b1 \<Rightarrow>
           CurrentTurn b1 = Black \<and> GetLegalMoves b1 = [] \<and> isInCheck b1 Black
           \<and> GameOver b1 \<and> Winner b1 = White
           \<and> gameResult b1 = (''white'', 1.0, 0.0))"
  by code_simp

text \<open>
  Claim C1. On \<open>pinnedCapture\<close> Black plays e7-e5; White's capture d5xe6 en passant is
  then accepted by \<open>IsValidMove\<close>, because \<open>wouldBeInCheck\<close> leaves the captured pawn
  on e5; but \<open>MakeMove\<close> removes that pawn, and on the board it returns the white king
  is in check from the rook: the accepted move is not a fully legal one.
\<close>

theorem IsValidMove_accepts_capture_exposing_king:
  "IsValidMove pinnedCapture (fromTo 1 4 3 4)
   \<and> (case MakeMove pinnedCapture (fromTo 1 4 3 4) of
         None \<Rightarrow> False
       | Some b1 \<Rightarrow>
           CurrentTurn b1 = White \<and> EnPassantTarget b1 = Some (mkPos 2 4)
           \<and> \<not> isInCheck b1 White
           \<and> \<not> wouldBeInCheck b1 (fromTo 3 3 2 4) White
           \<and> IsValidMove b1 (fromTo 3 3 2 4)
           \<and> (case MakeMove b1 (fromTo 3 3 2 4) of
                 None \<Rightarrow> False
               | Some b2 \<Rightarrow> Type (Cells b2 3 4) = Empty \<and> isInCheck b2 White))"
  by code_simp

section \<open>Properties of move selection\<close>

lemma maxLoop_result:
  assumes "\<And>b' a bt. \<exists>r. rec b' a bt = Some r"
    and "\<And>m. m \<in> set moves \<Longrightarrow> IsValidMove b m"
  shows "\<exists>v mv. maxLoop rec b moves alpha beta best bestMove = Some (v, mv)
           \<and> (mv = bestMove \<or> mv \<in> set moves)"
  using assms(2)
proof (induction moves arbitrary: alpha best bestMove)
  case Nil
  then show ?case by simp
next
  case (Cons m moves)
  have mk: "MakeMove b m = Some (checkGameOver (applyMove b m))"
    using Cons.prems by (simp add: IsValidMove_MakeMove)
  obtain ev mv0 where r: "rec (checkGameOver (applyMove b m)) alpha beta = Some (ev, mv0)"
    using assms(1) by fastforce
  have ih: "\<exists>v mv. maxLoop rec b moves a1 beta b1 bm1 = Some (v, mv)
           \<and> (mv = bm1 \<or> mv \<in> set moves)" for a1 b1 bm1
    using Cons.IH Cons.prems by simp
  show ?case
    using ih [of "max alpha ev" "if best < ev then ev else best" "if best < ev then m else bestMove"]
    by (auto simp: mk r Let_def)
qed

lemma minLoop_result:
  assumes "\<And>b' a bt. \<exists>r. rec b' a bt = Some r"
    and "\<And>m. m \<in> set moves \<Longrightarrow> IsValidMove b m"
  shows "\<exists>v mv. minLoop rec b moves alpha beta best bestMove = Some (v, mv)
           \<and> (mv = bestMove \<or> mv \<in> set moves)"
  using assms(2)
proof (induction moves arbitrary: beta best bestMove)
  case Nil
  then show ?case by simp
next
  case (Cons m moves)
  have mk: "MakeMove b m = Some (checkGameOver (applyMove b m))"
    using Cons.prems by (simp add: IsValidMove_MakeMove)
  obtain ev mv0 where r: "rec (checkGameOver (applyMove b m)) alpha beta = Some (ev, mv0)"
    using assms(1) by fastforce
  have ih: "\<exists>v mv. minLoop rec b moves alpha b1 m1 bm1 = Some (v, mv)
           \<and> (mv = bm1 \<or> mv \<in> set moves)" for b1 m1 bm1
    using Cons.IH Cons.prems by simp
  show ?case
    using ih [of "min beta ev" "if ev < best then ev else best" "if ev < best then m else bestMove"]
    by (auto simp: mk r Let_def)
qed

lemma minimax_result:
  "\<exists>v mv. minimax depth n board alpha beta maximizing = Some (v, mv)
     \<and> (mv = noResult \<or> mv \<in> set (GetLegalMoves board))"
proof (induction depth arbitrary: board alpha beta maximizing)
  case 0
  then show ?case by simp
next
  case (Suc depth)
  have legal: "\<And>m. m \<in> set (GetLegalMoves board) \<Longrightarrow> IsValidMove board m"
    by (simp add: GetLegalMoves_iff)
  have recF: "\<exists>r. (\<lambda>boardCopy a bt. minimax depth n boardCopy a bt False) b' a bt = Some r"
    for b' a bt using Suc.IH [of b' a bt False] by auto
  have recT: "\<exists>r. (\<lambda>boardCopy a bt. minimax depth n boardCopy a bt True) b' a bt = Some r"
    for b' a bt using Suc.IH [of b' a bt True] by auto
  show ?case
    using maxLoop_result [of "\<lambda>boardCopy a bt. minimax depth n boardCopy a bt False"
        "GetLegalMoves board" board alpha beta "- maxFloat64" noResult, OF recF legal]
      minLoop_result [of "\<lambda>boardCopy a bt. minimax depth n boardCopy a bt True"
        "GetLegalMoves board" board alpha beta maxFloat64 noResult, OF recT legal]
    by auto
qed

lemma legal_From_Row: "IsValidMove b m \<Longrightarrow> Row (From m) \<noteq> - 1"
  using IsValidMove_facts(1) [of b m] by (auto simp: onBoard_def)

lemma zeroMove_not_legal: "\<not> IsValidMove b zeroMove"
  by (auto simp: IsValidMove_def zeroMove_def mkMove_def mkPos_def Let_def)

lemma ChooseMove_result:
  "\<exists>m. ChooseMove a n board u pick = Some m
     \<and> (if GetLegalMoves board = [] then m = zeroMove else m \<in> set (GetLegalMoves board))"
proof (cases "GetLegalMoves board = []")
  case True
  then show ?thesis by (simp add: ChooseMove_def)
next
  case False
  then have pick: "GetLegalMoves board ! (pick mod length (GetLegalMoves board))
      \<in> set (GetLegalMoves board)"
    by simp
  obtain v mv where mm: "minimax 2 n board (- maxFloat64) maxFloat64 True = Some (v, mv)"
    and mv: "mv = noResult \<or> mv \<in> set (GetLegalMoves board)"
    using minimax_result [of 2 n board "- maxFloat64" maxFloat64 True] by auto
  have "Row (From mv) \<noteq> - 1 \<Longrightarrow> mv \<in> set (GetLegalMoves board)"
    using mv by (auto simp: noResult_def mkMove_def mkPos_def)
  then show ?thesis
    using False pick by (auto simp: ChooseMove_def Let_def mm)
qed

text \<open>
  Claim C4. For every agent, network, board and pair of random draws \<open>ChooseMove\<close>
  returns (it does not panic); on a board with legal moves the move it returns is one
  of \<open>GetLegalMoves\<close> on that board, and on a board without legal moves it returns the
  zero move \<open>Move{}\<close>, which is never a legal move.
\<close>

theorem ChooseMove_returns_legal_move:
  "\<exists>m. ChooseMove a n board u pick = Some m
     \<and> (if GetLegalMoves board = [] then m = zeroMove else m \<in> set (GetLegalMoves board))
     \<and> zeroMove \<notin> set (GetLegalMoves board)"
proof -
  have "zeroMove \<notin> set (GetLegalMoves board)"
    by (simp add: GetLegalMoves_iff zeroMove_not_legal)
  with ChooseMove_result [of a n board u pick] show ?thesis by blast
qed

lemma stalemated_no_moves:
  "GetLegalMoves (checkGameOver (applyMove queenEnding (fromTo 1 7 1 2))) = []"
  by code_simp

text \<open>
  Claim C10. On a board without legal moves \<open>ChooseMove\<close> returns the zero-valued
  move, whose squares are both (0, 0) and whose \<open>From.Row\<close> is not -1; and on no
  board at all does \<open>ChooseMove\<close> return a move with \<open>From.Row = -1\<close>, the value the
  self-play loop tests for.
\<close>

theorem ChooseMove_no_moves_returns_zero_move:
  assumes "GetLegalMoves board = []"
  shows "ChooseMove a n board u pick = Some zeroMove
       \<and> From zeroMove = mkPos 0 0 \<and> To zeroMove = mkPos 0 0
       \<and> Row (From zeroMove) \<noteq> - 1
       \<and> (\<exists>m. ChooseMove a2 n2 board2 u2 pick2 = Some m \<and> Row (From m) \<noteq> - 1)"
proof -
  have first: "ChooseMove a n board u pick = Some zeroMove"
    using assms by (simp add: ChooseMove_def)
  have zero: "From zeroMove = mkPos 0 0" "To zeroMove = mkPos 0 0" "Row (From zeroMove) \<noteq> - 1"
    by (simp_all add: zeroMove_def mkMove_def mkPos_def)
  obtain m where m: "ChooseMove a2 n2 board2 u2 pick2 = Some m"
    and cases: "if GetLegalMoves board2 = [] then m = zeroMove
                else m \<in> set (GetLegalMoves board2)"
    using ChooseMove_result [of a2 n2 board2 u2 pick2] by blast
  have "Row (From m) \<noteq> - 1"
  proof (cases "GetLegalMoves board2 = []")
    case True
    with cases zero(3) show ?thesis by simp
  next
    case False
    with cases have "IsValidMove board2 m" by (simp add: GetLegalMoves_iff)
    then show ?thesis by (rule legal_From_Row)
  qed
  with first zero m show ?thesis by blast
qed

theorem ChooseMove_no_moves_witness:
  "GetLegalMoves (checkGameOver (applyMove queenEnding (fromTo 1 7 1 2))) = []
   \<and> ChooseMove (NewAgent Black) zeroNetwork
        (checkGameOver (applyMove queenEnding (fromTo 1 7 1 2))) 0.5 0 = Some zeroMove
   \<and> Row (From zeroMove) \<noteq> - 1"
  using ChooseMove_no_moves_returns_zero_move [OF stalemated_no_moves,
      where a = "NewAgent Black" and n = zeroNetwork and u = "0.5" and pick = 0]
    stalemated_no_moves by blast

section \<open>Properties of self-play\<close>





lemma RecordState_history [simp]:
  "StateHistory (RecordState a board) = StateHistory a @ [boardToVector board]"
  by (simp add: RecordState_def)







end
